theory Spec2Isabelle
  imports Main "HOL-Library.Word" "HOL-Library.AList"
begin

unbundle bit_operations_syntax

section \<open>JavaScript values used by the crypto module\<close>

text \<open>
  The repository is a TypeScript application on the browser's Web Crypto API. A JavaScript
  string is a sequence of UTF-16 code units and a \<^verbatim>\<open>Uint8Array\<close> a sequence of bytes.
  Every \<^verbatim>\<open>throw\<close> and every rejected promise of the source is a value \<open>Inl e\<close>;
  \<^verbatim>\<open>await\<close> is sequencing.
\<close>

type_synonym byte = "8 word"
type_synonym jsstring = "16 word list"

datatype error =
    Error string
  | StorageError string
  | InvalidCharacterError
  | OperationError
  | InvalidAccessError
  | DataError
  | SyntaxError

text \<open>A string literal of the source, as code units.\<close>

definition js :: "string \<Rightarrow> jsstring" where
  "js s = map (\<lambda>c. of_nat (of_char c)) s"

text \<open>
  An argument that is \<^verbatim>\<open>undefined\<close> at run time (an optional field that is absent)
  reaches \<^verbatim>\<open>atob\<close> as the string \<^verbatim>\<open>"undefined"\<close>.
\<close>

definition ToString :: "jsstring option \<Rightarrow> jsstring" where
  "ToString v = (case v of None \<Rightarrow> js ''undefined'' | Some s \<Rightarrow> s)"

text \<open>Truthiness of an optional string: \<^verbatim>\<open>undefined\<close> and \<^verbatim>\<open>""\<close> are falsy.\<close>

definition truthy :: "jsstring option \<Rightarrow> bool" where
  "truthy v = (case v of None \<Rightarrow> False | Some s \<Rightarrow> s \<noteq> [])"

subsection \<open>\<^verbatim>\<open>btoa\<close> and \<^verbatim>\<open>atob\<close>\<close>

text \<open>
  The base64 alphabet: \<^verbatim>\<open>A-Z\<close>, \<^verbatim>\<open>a-z\<close>, \<^verbatim>\<open>0-9\<close>, \<^verbatim>\<open>+\<close>, \<^verbatim>\<open>/\<close>;
  61 is \<^verbatim>\<open>=\<close>.
\<close>

definition b64_code :: "nat \<Rightarrow> nat" where
  "b64_code n =
     (if n < 26 then 65 + n
      else if n < 52 then 71 + n
      else if n < 62 then n - 4
      else if n = 62 then 43 else 47)"

definition b64_char :: "nat \<Rightarrow> 16 word" where
  "b64_char n = of_nat (b64_code n)"

definition b64_index :: "16 word \<Rightarrow> nat option" where
  "b64_index u =
     (let x = unat u in
      if 65 \<le> x \<and> x \<le> 90 then Some (x - 65)
      else if 97 \<le> x \<and> x \<le> 122 then Some (x - 71)
      else if 48 \<le> x \<and> x \<le> 57 then Some (x + 4)
      else if x = 43 then Some 62
      else if x = 47 then Some 63
      else None)"

fun base64_encode :: "byte list \<Rightarrow> jsstring" where
  "base64_encode [] = []"
| "base64_encode [a] =
     [b64_char (unat a div 4), b64_char (unat a mod 4 * 16), 61, 61]"
| "base64_encode [a, b] =
     [b64_char (unat a div 4), b64_char (unat a mod 4 * 16 + unat b div 16),
      b64_char (unat b mod 16 * 4), 61]"
| "base64_encode (a # b # c # rest) =
     [b64_char (unat a div 4), b64_char (unat a mod 4 * 16 + unat b div 16),
      b64_char (unat b mod 16 * 4 + unat c div 64), b64_char (unat c mod 64)]
     @ base64_encode rest"

text \<open>\<^verbatim>\<open>btoa\<close> throws on a code unit above 255 and encodes the bytes otherwise.\<close>

definition btoa :: "jsstring \<Rightarrow> error + jsstring" where
  "btoa s = (if list_ex (\<lambda>u. 255 < u) s then Inl InvalidCharacterError
             else Inr (base64_encode (map ucast s)))"

definition ascii_whitespace :: "16 word \<Rightarrow> bool" where
  "ascii_whitespace u \<longleftrightarrow> u = 9 \<or> u = 10 \<or> u = 12 \<or> u = 13 \<or> u = 32"

definition remove_padding :: "jsstring \<Rightarrow> jsstring" where
  "remove_padding s =
     (if s \<noteq> [] \<and> last s = 61
      then (let t = butlast s in if t \<noteq> [] \<and> last t = 61 then butlast t else t)
      else s)"

fun base64_decode :: "nat list \<Rightarrow> byte list" where
  "base64_decode (p # q # r # s # rest) =
     [of_nat (p * 4 + q div 16), of_nat (q mod 16 * 16 + r div 4), of_nat (r mod 4 * 64 + s)]
     @ base64_decode rest"
| "base64_decode [p, q, r] = [of_nat (p * 4 + q div 16), of_nat (q mod 16 * 16 + r div 4)]"
| "base64_decode [p, q] = [of_nat (p * 4 + q div 16)]"
| "base64_decode [p] = []"
| "base64_decode [] = []"

text \<open>
  \<^verbatim>\<open>atob\<close> is the forgiving base64 decoder of the platform: whitespace is dropped, one or
  two trailing \<^verbatim>\<open>=\<close> are dropped when the length is a multiple of four, a length of
  1 modulo 4 or a character outside the alphabet throws.
\<close>

definition atob :: "jsstring \<Rightarrow> error + jsstring" where
  "atob data =
     (let d = filter (\<lambda>u. \<not> ascii_whitespace u) data;
          d' = (if length d mod 4 = 0 then remove_padding d else d)
      in if length d' mod 4 = 1 then Inl InvalidCharacterError
         else (case those (map b64_index d') of
                 None \<Rightarrow> Inl InvalidCharacterError
               | Some sextets \<Rightarrow> Inr (map ucast (base64_decode sextets))))"

text \<open>
  The two helpers at the end of the crypto module. The loops of the source append
  \<^verbatim>\<open>String.fromCharCode(bytes[i])\<close> for every byte, and store
  \<^verbatim>\<open>binaryString.charCodeAt(i)\<close> into a \<^verbatim>\<open>Uint8Array\<close> for every code unit.
\<close>

definition arrayBufferToBase64 :: "byte list \<Rightarrow> error + jsstring" where
  "arrayBufferToBase64 buffer = btoa (map ucast buffer)"

definition base64ToArrayBuffer :: "jsstring \<Rightarrow> error + byte list" where
  "base64ToArrayBuffer base64 =
     (case atob base64 of Inl e \<Rightarrow> Inl e | Inr binaryString \<Rightarrow> Inr (map ucast binaryString))"

text \<open>The six-bit groups and the number of padding characters of an encoding.\<close>

fun sextets :: "byte list \<Rightarrow> nat list" where
  "sextets [] = []"
| "sextets [a] = [unat a div 4, unat a mod 4 * 16]"
| "sextets [a, b] = [unat a div 4, unat a mod 4 * 16 + unat b div 16, unat b mod 16 * 4]"
| "sextets (a # b # c # rest) =
     [unat a div 4, unat a mod 4 * 16 + unat b div 16,
      unat b mod 16 * 4 + unat c div 64, unat c mod 64] @ sextets rest"

fun padding :: "byte list \<Rightarrow> nat" where
  "padding [] = 0"
| "padding [a] = 2"
| "padding [a, b] = 1"
| "padding (a # b # c # rest) = padding rest"

subsection \<open>\<^verbatim>\<open>TextEncoder\<close> and \<^verbatim>\<open>TextDecoder\<close>\<close>

text \<open>
  \<^verbatim>\<open>new TextEncoder().encode(s)\<close> first reads \<open>s\<close> as scalar values: a surrogate pair
  is one code point, a surrogate without its partner becomes U+FFFD. Each scalar value is
  then written in UTF-8.
\<close>

definition is_lead :: "16 word \<Rightarrow> bool" where
  "is_lead u \<longleftrightarrow> 0xD800 \<le> unat u \<and> unat u \<le> 0xDBFF"

definition is_trail :: "16 word \<Rightarrow> bool" where
  "is_trail u \<longleftrightarrow> 0xDC00 \<le> unat u \<and> unat u \<le> 0xDFFF"

definition unit_scalar :: "16 word \<Rightarrow> nat" where
  "unit_scalar u = (if is_lead u \<or> is_trail u then 0xFFFD else unat u)"

fun scalar_values :: "jsstring \<Rightarrow> nat list" where
  "scalar_values [] = []"
| "scalar_values [u] = [unit_scalar u]"
| "scalar_values (u # v # rest) =
     (if is_lead u \<and> is_trail v
      then (0x10000 + (unat u - 0xD800) * 0x400 + (unat v - 0xDC00)) # scalar_values rest
      else unit_scalar u # scalar_values (v # rest))"

definition utf8_encode :: "nat \<Rightarrow> byte list" where
  "utf8_encode c =
     (if c < 0x80 then [of_nat c]
      else if c < 0x800 then [of_nat (0xC0 + c div 64), of_nat (0x80 + c mod 64)]
      else if c < 0x10000
        then [of_nat (0xE0 + c div 4096), of_nat (0x80 + c div 64 mod 64),
              of_nat (0x80 + c mod 64)]
      else [of_nat (0xF0 + c div 262144), of_nat (0x80 + c div 4096 mod 64),
            of_nat (0x80 + c div 64 mod 64), of_nat (0x80 + c mod 64)])"

definition TextEncoder_encode :: "jsstring \<Rightarrow> byte list" where
  "TextEncoder_encode s = concat (map utf8_encode (scalar_values s))"

text \<open>
  \<^verbatim>\<open>new TextDecoder().decode(bytes)\<close> is the UTF-8 decoder of the platform in its default
  mode: a malformed sequence yields U+FFFD and decoding goes on (it never throws), the byte
  that broke a sequence is read again as the start of the next one, and a byte order mark
  at the very start is dropped. The arguments of \<open>utf8_decoder\<close> are the decoder's code
  point, its count of bytes still needed, and its lower and upper boundary.
\<close>

function utf8_decoder :: "nat \<Rightarrow> nat \<Rightarrow> nat \<Rightarrow> nat \<Rightarrow> byte list \<Rightarrow> nat list" where
  "utf8_decoder cp needed lower upper [] = (if needed \<noteq> 0 then [0xFFFD] else [])"
| "utf8_decoder cp needed lower upper (b # bs) =
     (if needed = 0 then
        (if unat b \<le> 0x7F then unat b # utf8_decoder 0 0 0x80 0xBF bs
         else if 0xC2 \<le> unat b \<and> unat b \<le> 0xDF
           then utf8_decoder (unat b mod 32) 1 0x80 0xBF bs
         else if 0xE0 \<le> unat b \<and> unat b \<le> 0xEF
           then utf8_decoder (unat b mod 16) 2
                  (if unat b = 0xE0 then 0xA0 else 0x80) (if unat b = 0xED then 0x9F else 0xBF) bs
         else if 0xF0 \<le> unat b \<and> unat b \<le> 0xF4
           then utf8_decoder (unat b mod 8) 3
                  (if unat b = 0xF0 then 0x90 else 0x80) (if unat b = 0xF4 then 0x8F else 0xBF) bs
         else 0xFFFD # utf8_decoder 0 0 0x80 0xBF bs)
      else if unat b < lower \<or> upper < unat b
        then 0xFFFD # utf8_decoder 0 0 0x80 0xBF (b # bs)
      else if needed = 1 then (cp * 64 + unat b mod 64) # utf8_decoder 0 0 0x80 0xBF bs
      else utf8_decoder (cp * 64 + unat b mod 64) (needed - 1) 0x80 0xBF bs)"
  by pat_completeness auto
termination
  by (relation "measure (\<lambda>(cp, needed, lower, upper, bs).
        2 * length bs + (if needed = 0 then 0 else 1))") auto

definition utf16_units :: "nat \<Rightarrow> jsstring" where
  "utf16_units c =
     (if c < 0x10000 then [of_nat c]
      else [of_nat (0xD800 + (c - 0x10000) div 0x400), of_nat (0xDC00 + (c - 0x10000) mod 0x400)])"

definition strip_bom :: "nat list \<Rightarrow> nat list" where
  "strip_bom cs = (case cs of [] \<Rightarrow> [] | c # rest \<Rightarrow> if c = 0xFEFF then rest else cs)"

definition TextDecoder_decode :: "byte list \<Rightarrow> jsstring" where
  "TextDecoder_decode bytes =
     concat (map utf16_units (strip_bom (utf8_decoder 0 0 0x80 0xBF bytes)))"

text \<open>The strings that the encoder and the decoder give back unchanged.\<close>

definition utf8_preserved :: "jsstring \<Rightarrow> bool" where
  "utf8_preserved s \<longleftrightarrow> TextDecoder_decode (TextEncoder_encode s) = s"

definition ascii :: "jsstring \<Rightarrow> bool" where
  "ascii s = list_all (\<lambda>u. unat u < 0x80) s"

text \<open>
  A scalar value is a code point that is not a surrogate. A string is well formed when every
  surrogate in it is half of a pair, and starts with a byte order mark when its first code
  unit is U+FEFF.
\<close>

definition scalar :: "nat \<Rightarrow> bool" where
  "scalar c \<longleftrightarrow> c < 0x110000 \<and> \<not> (0xD800 \<le> c \<and> c \<le> 0xDFFF)"

fun well_formed :: "jsstring \<Rightarrow> bool" where
  "well_formed [] = True"
| "well_formed [u] = (\<not> is_lead u \<and> \<not> is_trail u)"
| "well_formed (u # v # rest) =
     (if is_lead u then is_trail v \<and> well_formed rest
      else \<not> is_trail u \<and> well_formed (v # rest))"

definition starts_with_bom :: "jsstring \<Rightarrow> bool" where
  "starts_with_bom s = (case s of [] \<Rightarrow> False | u # rest \<Rightarrow> u = 0xFEFF)"

section \<open>The application's types\<close>

text \<open>
  The interfaces of the types module, with the fields the modelled functions read or write.
  A field called \<^verbatim>\<open>id\<close> in the source carries the name of its interface here. Dates
  are milliseconds since the epoch.
\<close>

record User =
  user_id :: jsstring
  name :: jsstring
  publicKey :: "jsstring option"

record Reaction =
  emoji :: jsstring
  userId :: jsstring
  userName :: jsstring

record Message =
  message_id :: jsstring
  content :: jsstring
  iv :: "jsstring option"
  senderId :: jsstring
  senderName :: jsstring
  timestamp :: int
  channelId :: jsstring
  reactions :: "Reaction list option"

datatype KeyType = KeyType_channel | KeyType_user

record EncryptionKeyReference =
  reference_id :: jsstring
  ownerUserId :: jsstring
  encryptedKey :: jsstring
  keyType :: KeyType
  associatedId :: jsstring
  createdAt :: int

section \<open>The platform: Web Crypto and JSON\<close>

text \<open>
  A \<^verbatim>\<open>CryptoKey\<close> is the public or the private half of the RSA-OAEP key pair with a
  given number, or an AES-GCM key with its bytes. The constructor carries the usages that
  the source requests: a public key encrypts only, a private key decrypts only.
\<close>

datatype CryptoKey = RsaPublicKey nat | RsaPrivateKey nat | AesGcmKey "byte list"

text \<open>
  The values that \<^verbatim>\<open>JSON.parse\<close> returns and \<^verbatim>\<open>JSON.stringify\<close> takes, by their
  shape: the JSON Web Key of one of the three keys, an object with a string field
  \<^verbatim>\<open>encryptedKey\<close>, a message object, or any other value.
\<close>

datatype json =
    JwkRsaPublic nat
  | JwkRsaPrivate nat
  | JwkOct "byte list"
  | KeyReferenceJson EncryptionKeyReference
  | MessageJson Message
  | OtherJson

text \<open>
  The platform functions that the source calls and that are not computed here are
  parameters: the two ciphers on bytes, and JSON. \<open>None\<close> is the exception of the platform
  function (\<^verbatim>\<open>OperationError\<close> of a cipher, \<^verbatim>\<open>SyntaxError\<close> of
  \<^verbatim>\<open>JSON.parse\<close>). RSA-OAEP draws a random seed for every encryption.
\<close>

type_synonym entropy = "nat \<Rightarrow> byte"

record platform =
  rsa_oaep_encrypt :: "nat \<Rightarrow> entropy \<Rightarrow> byte list \<Rightarrow> byte list option"
  rsa_oaep_decrypt :: "nat \<Rightarrow> byte list \<Rightarrow> byte list option"
  aes_gcm_encrypt :: "byte list \<Rightarrow> byte list \<Rightarrow> byte list \<Rightarrow> byte list"
  aes_gcm_decrypt :: "byte list \<Rightarrow> byte list \<Rightarrow> byte list \<Rightarrow> byte list option"
  JSON_stringify :: "json \<Rightarrow> jsstring"
  JSON_parse :: "jsstring \<Rightarrow> json option"

text \<open>\<^verbatim>\<open>crypto.getRandomValues(new Uint8Array(n))\<close>: \<open>n\<close> bytes of the random source.\<close>

definition getRandomValues :: "entropy \<Rightarrow> nat \<Rightarrow> byte list" where
  "getRandomValues rng n = map rng [0..<n]"

text \<open>
  What the source relies on from the platform. RSA-OAEP with a 2048-bit modulus and SHA-256
  takes up to 190 bytes, and the private half of a pair undoes the public half. AES-GCM
  decrypts what it encrypted under the same key and nonce, and rejects a ciphertext under
  another 96-bit nonce (the authentication tag does not match). The JSON text of an
  exported AES-256 key parses back to the key, is ASCII, and fits RSA-OAEP.
\<close>

definition rsa_oaep_ok :: "platform \<Rightarrow> bool" where
  "rsa_oaep_ok P \<longleftrightarrow>
     (\<forall>n seed d. length d \<le> 190 \<longrightarrow> rsa_oaep_encrypt P n seed d \<noteq> None) \<and>
     (\<forall>n seed d c. rsa_oaep_encrypt P n seed d = Some c \<longrightarrow> rsa_oaep_decrypt P n c = Some d)"

definition aes_gcm_ok :: "platform \<Rightarrow> bool" where
  "aes_gcm_ok P \<longleftrightarrow>
     (\<forall>k nonce d. aes_gcm_decrypt P k nonce (aes_gcm_encrypt P k nonce d) = Some d)"

definition aes_gcm_binds_nonce :: "platform \<Rightarrow> bool" where
  "aes_gcm_binds_nonce P \<longleftrightarrow>
     (\<forall>k nonce nonce' d. length nonce = 12 \<and> length nonce' = 12 \<and> nonce \<noteq> nonce' \<longrightarrow>
        aes_gcm_decrypt P k nonce' (aes_gcm_encrypt P k nonce d) = None)"

definition jwk_text_ok :: "platform \<Rightarrow> bool" where
  "jwk_text_ok P \<longleftrightarrow>
     (\<forall>k. JSON_parse P (JSON_stringify P (JwkOct k)) = Some (JwkOct k)) \<and>
     (\<forall>k. length k = 32 \<longrightarrow>
        ascii (JSON_stringify P (JwkOct k)) \<and> length (JSON_stringify P (JwkOct k)) \<le> 190)"

section \<open>The crypto module\<close>

text \<open>
  \<^verbatim>\<open>generateKeyPair\<close>: the platform picks the pair. \<^verbatim>\<open>generateSymmetricKey\<close>: the
  platform draws the 256 bits of the key.
\<close>

definition generateKeyPair :: "nat \<Rightarrow> CryptoKey \<times> CryptoKey" where
  "generateKeyPair n = (RsaPublicKey n, RsaPrivateKey n)"

definition generateSymmetricKey :: "entropy \<Rightarrow> CryptoKey" where
  "generateSymmetricKey rng = AesGcmKey (getRandomValues rng 32)"

definition exportKey :: "CryptoKey \<Rightarrow> json" where
  "exportKey key =
     (case key of
        RsaPublicKey n \<Rightarrow> JwkRsaPublic n
      | RsaPrivateKey n \<Rightarrow> JwkRsaPrivate n
      | AesGcmKey k \<Rightarrow> JwkOct k)"

text \<open>
  \<^verbatim>\<open>importKey(jwk, isPrivate)\<close> asks for the usage \<^verbatim>\<open>decrypt\<close> when \<open>isPrivate\<close> and for
  \<^verbatim>\<open>encrypt\<close> otherwise; the platform refuses a key of the other half and anything that
  is not an RSA key.
\<close>

definition importKey :: "json \<Rightarrow> bool \<Rightarrow> error + CryptoKey" where
  "importKey jwk isPrivate =
     (case jwk of
        JwkRsaPublic n \<Rightarrow> if isPrivate then Inl SyntaxError else Inr (RsaPublicKey n)
      | JwkRsaPrivate n \<Rightarrow> if isPrivate then Inr (RsaPrivateKey n) else Inl SyntaxError
      | _ \<Rightarrow> Inl DataError)"

definition importSymmetricKey :: "json \<Rightarrow> error + CryptoKey" where
  "importSymmetricKey jwk =
     (case jwk of
        JwkOct k \<Rightarrow>
          if length k = 16 \<or> length k = 24 \<or> length k = 32 then Inr (AesGcmKey k)
          else Inl DataError
      | _ \<Rightarrow> Inl DataError)"

definition encryptWithPublicKey ::
    "platform \<Rightarrow> entropy \<Rightarrow> jsstring \<Rightarrow> CryptoKey \<Rightarrow> error + jsstring" where
  "encryptWithPublicKey P seed data pubKey =
     (let dataBuffer = TextEncoder_encode data in
      case pubKey of
        RsaPublicKey n \<Rightarrow>
          (case rsa_oaep_encrypt P n seed dataBuffer of
             None \<Rightarrow> Inl OperationError
           | Some encryptedBuffer \<Rightarrow> arrayBufferToBase64 encryptedBuffer)
      | _ \<Rightarrow> Inl InvalidAccessError)"

definition decryptWithPrivateKey :: "platform \<Rightarrow> jsstring \<Rightarrow> CryptoKey \<Rightarrow> error + jsstring" where
  "decryptWithPrivateKey P encryptedData privateKey =
     (case base64ToArrayBuffer encryptedData of
        Inl e \<Rightarrow> Inl e
      | Inr encryptedBuffer \<Rightarrow>
          (case privateKey of
             RsaPrivateKey n \<Rightarrow>
               (case rsa_oaep_decrypt P n encryptedBuffer of
                  None \<Rightarrow> Inl OperationError
                | Some decryptedBuffer \<Rightarrow> Inr (TextDecoder_decode decryptedBuffer))
           | _ \<Rightarrow> Inl InvalidAccessError))"

text \<open>
  \<^verbatim>\<open>encryptWithSymmetricKey\<close> has no nonce parameter: it draws twelve random bytes. The
  result is the pair \<^verbatim>\<open>{ ciphertext, iv }\<close>.
\<close>

definition encryptWithSymmetricKey ::
    "platform \<Rightarrow> entropy \<Rightarrow> jsstring \<Rightarrow> CryptoKey \<Rightarrow> error + jsstring \<times> jsstring" where
  "encryptWithSymmetricKey P rng data symmetricKey =
     (let nonce = getRandomValues rng 12;
          dataBuffer = TextEncoder_encode data
      in case symmetricKey of
           AesGcmKey k \<Rightarrow>
             (case arrayBufferToBase64 (aes_gcm_encrypt P k nonce dataBuffer) of
                Inl e \<Rightarrow> Inl e
              | Inr ciphertext \<Rightarrow>
                  (case arrayBufferToBase64 nonce of
                     Inl e \<Rightarrow> Inl e
                   | Inr iv64 \<Rightarrow> Inr (ciphertext, iv64)))
         | _ \<Rightarrow> Inl InvalidAccessError)"

definition decryptWithSymmetricKey ::
    "platform \<Rightarrow> jsstring \<Rightarrow> jsstring \<Rightarrow> CryptoKey \<Rightarrow> error + jsstring" where
  "decryptWithSymmetricKey P encryptedData iv64 symmetricKey =
     (case base64ToArrayBuffer encryptedData of
        Inl e \<Rightarrow> Inl e
      | Inr encryptedBuffer \<Rightarrow>
          (case base64ToArrayBuffer iv64 of
             Inl e \<Rightarrow> Inl e
           | Inr ivBuffer \<Rightarrow>
               (case symmetricKey of
                  AesGcmKey k \<Rightarrow>
                    (case aes_gcm_decrypt P k ivBuffer encryptedBuffer of
                       None \<Rightarrow> Inl OperationError
                     | Some decryptedBuffer \<Rightarrow> Inr (TextDecoder_decode decryptedBuffer))
                | _ \<Rightarrow> Inl InvalidAccessError)))"

section \<open>The blob store and the identity\<close>

text \<open>
  \<^verbatim>\<open>storeData\<close>, \<^verbatim>\<open>retrieveData\<close> and \<^verbatim>\<open>listData\<close> of the storage context throw while no
  adapter is initialised and pass the call to the adapter otherwise. The adapter keeps one
  string per collection path and key; storing under a path and key that exist overwrites.
  A request that the adapter refuses (a missing object, a failed request) is a
  \<^verbatim>\<open>StorageError\<close>.
\<close>

record Storage =
  isInitialized :: bool
  objects :: "((jsstring \<times> jsstring) \<times> jsstring) list"

definition storeData :: "Storage \<Rightarrow> jsstring \<Rightarrow> jsstring \<Rightarrow> jsstring \<Rightarrow> error + Storage" where
  "storeData st key data path =
     (if \<not> isInitialized st then Inl (Error ''Storage adapter not initialized'')
      else Inr (st\<lparr>objects := AList.update (path, key) data (objects st)\<rparr>))"

definition retrieveData :: "Storage \<Rightarrow> jsstring \<Rightarrow> jsstring \<Rightarrow> error + jsstring" where
  "retrieveData st key path =
     (if \<not> isInitialized st then Inl (Error ''Storage adapter not initialized'')
      else (case map_of (objects st) (path, key) of
              None \<Rightarrow> Inl (StorageError ''Failed to retrieve file'')
            | Some data \<Rightarrow> Inr data))"

definition listData :: "Storage \<Rightarrow> jsstring \<Rightarrow> error + jsstring list" where
  "listData st path =
     (if \<not> isInitialized st then Inl (Error ''Storage adapter not initialized'')
      else Inr (map (\<lambda>entry. snd (fst entry)) (filter (\<lambda>entry. fst (fst entry) = path) (objects st))))"

text \<open>
  The identity that \<^verbatim>\<open>useAuth()\<close> provides: \<^verbatim>\<open>authState.user\<close>, and what
  \<^verbatim>\<open>getPrivateKey()\<close> resolves to (\<open>None\<close> is \<^verbatim>\<open>null\<close>).
\<close>

record AuthContext =
  user :: "User option"
  getPrivateKey :: "json option"

section \<open>The encryption context\<close>

text \<open>
  The state that the functions of the encryption context share: the module-level
  \<^verbatim>\<open>channelKeysCache\<close> of this process, and the blob store. Channel identifiers are the
  identifiers that the application generates; the cache is read by own property.
\<close>

record State =
  channelKeysCache :: "jsstring \<rightharpoonup> CryptoKey"
  storage :: Storage

text \<open>\<^verbatim>\<open>`key-${authState.user?.id}.json`\<close> and \<^verbatim>\<open>`${StoragePaths.ENCRYPTION}/${channelId}`\<close>.\<close>

definition keyFileName :: "User option \<Rightarrow> jsstring" where
  "keyFileName u = js ''key-'' @ ToString (map_option user_id u) @ js ''.json''"

definition encryptionPath :: "jsstring \<Rightarrow> jsstring" where
  "encryptionPath cid = js ''encryption/'' @ cid"

text \<open>The property \<^verbatim>\<open>encryptedKey\<close> of a parsed value; \<open>None\<close> is \<^verbatim>\<open>undefined\<close>.\<close>

definition encryptedKey_of :: "json \<Rightarrow> jsstring option" where
  "encryptedKey_of v = (case v of KeyReferenceJson r \<Rightarrow> Some (encryptedKey r) | _ \<Rightarrow> None)"

text \<open>
  \<^verbatim>\<open>getChannelKey\<close>, after the cache missed: the statements of the \<^verbatim>\<open>try\<close> block up to
  the imported symmetric key.
\<close>

definition unwrapChannelKey :: "platform \<Rightarrow> AuthContext \<Rightarrow> Storage \<Rightarrow> jsstring \<Rightarrow> error + CryptoKey" where
  "unwrapChannelKey P auth st cid =
     (case getPrivateKey auth of
        None \<Rightarrow> Inl (Error ''Private key not available'')
      | Some privateKeyJwk \<Rightarrow>
     (case importKey privateKeyJwk True of
        Inl e \<Rightarrow> Inl e
      | Inr privateKey \<Rightarrow>
     (case retrieveData st (keyFileName (user auth)) (encryptionPath cid) of
        Inl e \<Rightarrow> Inl e
      | Inr encryptedKeyReferenceData \<Rightarrow>
     (case JSON_parse P encryptedKeyReferenceData of
        None \<Rightarrow> Inl SyntaxError
      | Some encryptedKeyReference \<Rightarrow>
     (case decryptWithPrivateKey P (ToString (encryptedKey_of encryptedKeyReference)) privateKey of
        Inl e \<Rightarrow> Inl e
      | Inr decryptedKeyJwk \<Rightarrow>
     (case JSON_parse P decryptedKeyJwk of
        None \<Rightarrow> Inl SyntaxError
      | Some jwk \<Rightarrow> importSymmetricKey jwk))))))"

text \<open>
  \<^verbatim>\<open>getChannelKey\<close> returns the cached key, or unwraps the caller's Key Record and caches
  the key. Its \<^verbatim>\<open>catch\<close> turns every exception into \<^verbatim>\<open>null\<close> (\<open>None\<close>).
\<close>

definition getChannelKey :: "platform \<Rightarrow> AuthContext \<Rightarrow> State \<Rightarrow> jsstring \<Rightarrow> CryptoKey option \<times> State" where
  "getChannelKey P auth s cid =
     (case channelKeysCache s cid of
        Some key \<Rightarrow> (Some key, s)
      | None \<Rightarrow>
          (case unwrapChannelKey P auth (storage s) cid of
             Inl e \<Rightarrow> (None, s)
           | Inr symmetricKey \<Rightarrow>
               (Some symmetricKey,
                s\<lparr>channelKeysCache := (channelKeysCache s)(cid \<mapsto> symmetricKey)\<rparr>)))"

text \<open>The Key Record that \<^verbatim>\<open>generateChannelKey\<close> and \<^verbatim>\<open>importSharedChannelKey\<close> build.\<close>

definition keyReference :: "jsstring \<Rightarrow> jsstring \<Rightarrow> jsstring \<Rightarrow> int \<Rightarrow> EncryptionKeyReference" where
  "keyReference cid uid wrapped now =
     \<lparr>reference_id = js ''key-'' @ cid @ js ''-'' @ uid,
      ownerUserId = uid,
      encryptedKey = wrapped,
      keyType = KeyType_channel,
      associatedId = cid,
      createdAt = now\<rparr>"

text \<open>
  The \<^verbatim>\<open>try\<close> block of \<^verbatim>\<open>generateChannelKey\<close>. \<open>rng\<close> is the randomness of the key
  generation, \<open>seed\<close> that of the RSA-OAEP encryption, \<open>now\<close> the clock.
\<close>

definition generateChannelKey_try ::
    "platform \<Rightarrow> AuthContext \<Rightarrow> entropy \<Rightarrow> entropy \<Rightarrow> int \<Rightarrow> State \<Rightarrow> jsstring \<Rightarrow> error + State" where
  "generateChannelKey_try P auth rng seed now s cid =
     (case user auth of
        None \<Rightarrow> Inl (Error ''User not authenticated'')
      | Some u \<Rightarrow>
     (let symmetricKey = generateSymmetricKey rng;
          symmetricKeyJwk = exportKey symmetricKey
      in
     (case getPrivateKey auth of
        None \<Rightarrow> Inl (Error ''Private key not available'')
      | Some privateKeyJwk \<Rightarrow>
     (if \<not> truthy (publicKey u) then Inl (Error ''Public key not available'')
      else
     (case JSON_parse P (ToString (publicKey u)) of
        None \<Rightarrow> Inl SyntaxError
      | Some publicKeyJwk \<Rightarrow>
     (case importKey publicKeyJwk False of
        Inl e \<Rightarrow> Inl e
      | Inr pubKey \<Rightarrow>
     (case encryptWithPublicKey P seed (JSON_stringify P symmetricKeyJwk) pubKey of
        Inl e \<Rightarrow> Inl e
      | Inr wrapped \<Rightarrow>
     (case storeData (storage s) (keyFileName (Some u))
             (JSON_stringify P (KeyReferenceJson (keyReference cid (user_id u) wrapped now)))
             (encryptionPath cid) of
        Inl e \<Rightarrow> Inl e
      | Inr st \<Rightarrow>
          Inr (s\<lparr>channelKeysCache := (channelKeysCache s)(cid \<mapsto> symmetricKey),
                 storage := st\<rparr>)))))))))"

definition generateChannelKey ::
    "platform \<Rightarrow> AuthContext \<Rightarrow> entropy \<Rightarrow> entropy \<Rightarrow> int \<Rightarrow> State \<Rightarrow> jsstring \<Rightarrow> bool \<times> State" where
  "generateChannelKey P auth rng seed now s cid =
     (case generateChannelKey_try P auth rng seed now s cid of
        Inl e \<Rightarrow> (False, s)
      | Inr s' \<Rightarrow> (True, s'))"

text \<open>
  \<^verbatim>\<open>hasChannelKey\<close>: the cache, then \<^verbatim>\<open>!!key\<close> of \<^verbatim>\<open>getChannelKey\<close>; the call cannot
  throw, so the \<^verbatim>\<open>catch\<close> has no branch here.
\<close>

definition hasChannelKey :: "platform \<Rightarrow> AuthContext \<Rightarrow> State \<Rightarrow> jsstring \<Rightarrow> bool \<times> State" where
  "hasChannelKey P auth s cid =
     (case channelKeysCache s cid of
        Some key \<Rightarrow> (True, s)
      | None \<Rightarrow>
          (case getChannelKey P auth s cid of
             (None, s') \<Rightarrow> (False, s')
           | (Some key, s') \<Rightarrow> (True, s')))"

text \<open>\<^verbatim>\<open>shareChannelKey\<close> throws again what it catches.\<close>

definition shareChannelKey ::
    "platform \<Rightarrow> AuthContext \<Rightarrow> entropy \<Rightarrow> State \<Rightarrow> jsstring \<Rightarrow> json \<Rightarrow> (error + jsstring) \<times> State" where
  "shareChannelKey P auth seed s cid recipientPublicKeyJwk =
     (case user auth of
        None \<Rightarrow> (Inl (Error ''User not authenticated''), s)
      | Some u \<Rightarrow>
          (case getChannelKey P auth s cid of
             (None, s') \<Rightarrow> (Inl (Error ''Channel key not available''), s')
           | (Some channelKey, s') \<Rightarrow>
               (case importKey recipientPublicKeyJwk False of
                  Inl e \<Rightarrow> (Inl e, s')
                | Inr recipientPublicKey \<Rightarrow>
                    (encryptWithPublicKey P seed (JSON_stringify P (exportKey channelKey))
                       recipientPublicKey, s'))))"

text \<open>
  The \<^verbatim>\<open>try\<close> block of \<^verbatim>\<open>importSharedChannelKey\<close>. The Key Record is stored before the
  unwrapped text is parsed and imported, so an exception of these two leaves the record in
  the store and the cache as it was.
\<close>

definition importSharedChannelKey_try ::
    "platform \<Rightarrow> AuthContext \<Rightarrow> int \<Rightarrow> State \<Rightarrow> jsstring \<Rightarrow> jsstring \<Rightarrow> (error + unit) \<times> State" where
  "importSharedChannelKey_try P auth now s wrapped cid =
     (case user auth of
        None \<Rightarrow> (Inl (Error ''User not authenticated''), s)
      | Some u \<Rightarrow>
     (case getPrivateKey auth of
        None \<Rightarrow> (Inl (Error ''Private key not available''), s)
      | Some privateKeyJwk \<Rightarrow>
     (case importKey privateKeyJwk True of
        Inl e \<Rightarrow> (Inl e, s)
      | Inr privateKey \<Rightarrow>
     (case decryptWithPrivateKey P wrapped privateKey of
        Inl e \<Rightarrow> (Inl e, s)
      | Inr decryptedKeyJwk \<Rightarrow>
     (case storeData (storage s) (keyFileName (Some u))
             (JSON_stringify P (KeyReferenceJson (keyReference cid (user_id u) wrapped now)))
             (encryptionPath cid) of
        Inl e \<Rightarrow> (Inl e, s)
      | Inr st \<Rightarrow>
     (case JSON_parse P decryptedKeyJwk of
        None \<Rightarrow> (Inl SyntaxError, s\<lparr>storage := st\<rparr>)
      | Some jwk \<Rightarrow>
     (case importSymmetricKey jwk of
        Inl e \<Rightarrow> (Inl e, s\<lparr>storage := st\<rparr>)
      | Inr symmetricKey \<Rightarrow>
          (Inr (),
           s\<lparr>channelKeysCache := (channelKeysCache s)(cid \<mapsto> symmetricKey),
             storage := st\<rparr>))))))))"

definition importSharedChannelKey ::
    "platform \<Rightarrow> AuthContext \<Rightarrow> int \<Rightarrow> State \<Rightarrow> jsstring \<Rightarrow> jsstring \<Rightarrow> bool \<times> State" where
  "importSharedChannelKey P auth now s wrapped cid =
     (case importSharedChannelKey_try P auth now s wrapped cid of
        (Inl e, s') \<Rightarrow> (False, s')
      | (Inr ok, s') \<Rightarrow> (True, s'))"

text \<open>\<^verbatim>\<open>encryptMessage\<close> and \<^verbatim>\<open>decryptMessage\<close> throw again what they catch.\<close>

definition encryptMessage ::
    "platform \<Rightarrow> AuthContext \<Rightarrow> entropy \<Rightarrow> State \<Rightarrow> jsstring \<Rightarrow> jsstring
      \<Rightarrow> (error + jsstring \<times> jsstring) \<times> State" where
  "encryptMessage P auth rng s message cid =
     (case getChannelKey P auth s cid of
        (None, s') \<Rightarrow> (Inl (Error ''Channel key not available''), s')
      | (Some channelKey, s') \<Rightarrow> (encryptWithSymmetricKey P rng message channelKey, s'))"

definition decryptMessage ::
    "platform \<Rightarrow> AuthContext \<Rightarrow> State \<Rightarrow> jsstring \<Rightarrow> jsstring \<Rightarrow> jsstring
      \<Rightarrow> (error + jsstring) \<times> State" where
  "decryptMessage P auth s ciphertext iv64 cid =
     (case getChannelKey P auth s cid of
        (None, s') \<Rightarrow> (Inl (Error ''Channel key not available''), s')
      | (Some channelKey, s') \<Rightarrow> (decryptWithSymmetricKey P ciphertext iv64 channelKey, s'))"

section \<open>The message provider\<close>

text \<open>
  The state of the message provider that the modelled functions use: the messages on
  display, with their content in clear, and the selected channel.
\<close>

record MessageState =
  messages :: "Message list"
  currentChannelId :: "jsstring option"

definition messagesPath :: "jsstring \<Rightarrow> jsstring" where
  "messagesPath cid = js ''messages/'' @ cid"

text \<open>
  \<^verbatim>\<open>fetchMessages\<close> retrieves and parses every listed object; one exception ends the whole
  call. The collection of a channel holds message objects.
\<close>

fun retrieveMessages :: "platform \<Rightarrow> Storage \<Rightarrow> jsstring \<Rightarrow> jsstring list \<Rightarrow> error + Message list" where
  "retrieveMessages P st path [] = Inr []"
| "retrieveMessages P st path (key # keys) =
     (case retrieveData st key path of
        Inl e \<Rightarrow> Inl e
      | Inr messageData \<Rightarrow>
          (case JSON_parse P messageData of
             Some (MessageJson message) \<Rightarrow>
               (case retrieveMessages P st path keys of
                  Inl e \<Rightarrow> Inl e
                | Inr rest \<Rightarrow> Inr (message # rest))
           | _ \<Rightarrow> Inl SyntaxError))"

text \<open>
  The callback that \<^verbatim>\<open>fetchMessages\<close> maps over the sorted messages: a message with an
  \<^verbatim>\<open>iv\<close> is decrypted, and the \<^verbatim>\<open>catch\<close> of the callback puts the placeholder in place
  of a content that does not decrypt; a message without \<^verbatim>\<open>iv\<close> is returned as it is.
\<close>

definition decryptLoaded :: "platform \<Rightarrow> AuthContext \<Rightarrow> jsstring \<Rightarrow> State \<Rightarrow> Message \<Rightarrow> Message \<times> State" where
  "decryptLoaded P auth cid s message =
     (if truthy (iv message) then
        (case decryptMessage P auth s (content message) (ToString (iv message)) cid of
           (Inr decryptedContent, s') \<Rightarrow> (message\<lparr>content := decryptedContent\<rparr>, s')
         | (Inl err, s') \<Rightarrow> (message\<lparr>content := js ''[ENCRYPTED - Cannot decrypt]''\<rparr>, s'))
      else (message, s))"

fun decryptAll :: "platform \<Rightarrow> AuthContext \<Rightarrow> jsstring \<Rightarrow> State \<Rightarrow> Message list \<Rightarrow> Message list \<times> State" where
  "decryptAll P auth cid s [] = ([], s)"
| "decryptAll P auth cid s (message # rest) =
     (case decryptLoaded P auth cid s message of
        (m, s') \<Rightarrow> (case decryptAll P auth cid s' rest of (ms, s'') \<Rightarrow> (m # ms, s'')))"

definition fetchMessages ::
    "platform \<Rightarrow> AuthContext \<Rightarrow> State \<Rightarrow> MessageState \<Rightarrow> jsstring
      \<Rightarrow> Message list \<times> State \<times> MessageState" where
  "fetchMessages P auth s ms cid =
     (case listData (storage s) (messagesPath cid) of
        Inl e \<Rightarrow> ([], s, ms)
      | Inr messageKeys \<Rightarrow>
          (case retrieveMessages P (storage s) (messagesPath cid) messageKeys of
             Inl e \<Rightarrow> ([], s, ms)
           | Inr channelMessages \<Rightarrow>
               (case decryptAll P auth cid s (sort_key timestamp channelMessages) of
                  (decryptedMessages, s') \<Rightarrow>
                    (decryptedMessages, s', ms\<lparr>messages := decryptedMessages\<rparr>))))"

text \<open>\<^verbatim>\<open>findIndex\<close>; \<open>None\<close> is -1.\<close>

fun findIndex :: "('a \<Rightarrow> bool) \<Rightarrow> 'a list \<Rightarrow> nat option" where
  "findIndex p [] = None"
| "findIndex p (x # xs) = (if p x then Some 0 else map_option Suc (findIndex p xs))"

text \<open>
  The common end of \<^verbatim>\<open>addReaction\<close> and \<^verbatim>\<open>removeReaction\<close>: the content of a message
  that has an \<^verbatim>\<open>iv\<close> is encrypted again and only the \<^verbatim>\<open>ciphertext\<close> of the result is
  kept; the record is stored; the message on display is replaced. An exception makes the
  caller return \<^verbatim>\<open>false\<close>.
\<close>

definition storeEncryptedVersion ::
    "platform \<Rightarrow> AuthContext \<Rightarrow> entropy \<Rightarrow> State \<Rightarrow> MessageState \<Rightarrow> jsstring \<Rightarrow> jsstring
      \<Rightarrow> nat \<Rightarrow> Message \<Rightarrow> Message \<Rightarrow> bool \<times> State \<times> MessageState" where
  "storeEncryptedVersion P auth rng s ms cid messageId messageIndex message updatedMessage =
     (case (if truthy (iv message)
            then (case encryptMessage P auth rng s (content message) cid of
                    (Inl e, s') \<Rightarrow> (Inl e, s')
                  | (Inr (ciphertext, iv64), s') \<Rightarrow> (Inr (updatedMessage\<lparr>content := ciphertext\<rparr>), s'))
            else (Inr updatedMessage, s)) of
        (Inl e, s') \<Rightarrow> (False, s', ms)
      | (Inr encryptedMessage, s') \<Rightarrow>
          (case storeData (storage s') (messageId @ js ''.json'')
                  (JSON_stringify P (MessageJson encryptedMessage)) (messagesPath cid) of
             Inl e \<Rightarrow> (False, s', ms)
           | Inr st \<Rightarrow>
               (True, s'\<lparr>storage := st\<rparr>,
                ms\<lparr>messages := (messages ms)[messageIndex := updatedMessage]\<rparr>)))"

definition addReaction ::
    "platform \<Rightarrow> AuthContext \<Rightarrow> entropy \<Rightarrow> State \<Rightarrow> MessageState \<Rightarrow> jsstring \<Rightarrow> jsstring
      \<Rightarrow> bool \<times> State \<times> MessageState" where
  "addReaction P auth rng s ms messageId emojiArg =
     (case user auth of
        None \<Rightarrow> (False, s, ms)
      | Some u \<Rightarrow>
          if \<not> truthy (currentChannelId ms) then (False, s, ms)
          else
            (case findIndex (\<lambda>m. message_id m = messageId) (messages ms) of
               None \<Rightarrow> (False, s, ms)
             | Some messageIndex \<Rightarrow>
                 (let message = messages ms ! messageIndex in
                  if (case reactions message of
                        None \<Rightarrow> False
                      | Some rs \<Rightarrow> list_ex (\<lambda>r. userId r = user_id u \<and> emoji r = emojiArg) rs)
                  then (True, s, ms)
                  else
                    storeEncryptedVersion P auth rng s ms (ToString (currentChannelId ms))
                      messageId messageIndex message
                      (message\<lparr>reactions :=
                         Some ((case reactions message of None \<Rightarrow> [] | Some rs \<Rightarrow> rs)
                               @ [\<lparr>emoji = emojiArg, userId = user_id u, userName = name u\<rparr>])\<rparr>))))"

definition removeReaction ::
    "platform \<Rightarrow> AuthContext \<Rightarrow> entropy \<Rightarrow> State \<Rightarrow> MessageState \<Rightarrow> jsstring \<Rightarrow> jsstring
      \<Rightarrow> bool \<times> State \<times> MessageState" where
  "removeReaction P auth rng s ms messageId emojiArg =
     (case user auth of
        None \<Rightarrow> (False, s, ms)
      | Some u \<Rightarrow>
          if \<not> truthy (currentChannelId ms) then (False, s, ms)
          else
            (case findIndex (\<lambda>m. message_id m = messageId) (messages ms) of
               None \<Rightarrow> (False, s, ms)
             | Some messageIndex \<Rightarrow>
                 (let message = messages ms ! messageIndex in
                  storeEncryptedVersion P auth rng s ms (ToString (currentChannelId ms))
                    messageId messageIndex message
                    (message\<lparr>reactions :=
                       Some (filter (\<lambda>r. \<not> (userId r = user_id u \<and> emoji r = emojiArg))
                               (case reactions message of None \<Rightarrow> [] | Some rs \<Rightarrow> rs))\<rparr>))))"

text \<open>
  What the message list shows of a stored message, given the channel key that
  \<^verbatim>\<open>getChannelKey\<close> resolves (\<open>None\<close> when it resolves none): a message without \<^verbatim>\<open>iv\<close>
  unchanged, a message that decrypts with its content in clear, any other message with the
  fixed placeholder as its content.
\<close>

definition shownMessage :: "platform \<Rightarrow> CryptoKey option \<Rightarrow> Message \<Rightarrow> Message" where
  "shownMessage P key message =
     (if \<not> truthy (iv message) then message
      else (case key of
              None \<Rightarrow> message\<lparr>content := js ''[ENCRYPTED - Cannot decrypt]''\<rparr>
            | Some k \<Rightarrow>
                (case decryptWithSymmetricKey P (content message) (ToString (iv message)) k of
                   Inl e \<Rightarrow> message\<lparr>content := js ''[ENCRYPTED - Cannot decrypt]''\<rparr>
                 | Inr decryptedContent \<Rightarrow> message\<lparr>content := decryptedContent\<rparr>)))"

section \<open>Sequences of Channel Key Manager operations\<close>

text \<open>
  One call of the Channel Key Manager, with the identity it runs under and the randomness
  and clock it reads.
\<close>

datatype operation =
    GenerateChannelKey AuthContext entropy entropy int jsstring
  | GetChannelKey AuthContext jsstring
  | ShareChannelKey AuthContext entropy jsstring json
  | ImportSharedChannelKey AuthContext int jsstring jsstring

fun step :: "platform \<Rightarrow> State \<Rightarrow> operation \<Rightarrow> State" where
  "step P s (GenerateChannelKey auth rng seed now cid) =
     snd (generateChannelKey P auth rng seed now s cid)"
| "step P s (GetChannelKey auth cid) = snd (getChannelKey P auth s cid)"
| "step P s (ShareChannelKey auth seed cid recipientPublicKeyJwk) =
     snd (shareChannelKey P auth seed s cid recipientPublicKeyJwk)"
| "step P s (ImportSharedChannelKey auth now wrapped cid) =
     snd (importSharedChannelKey P auth now s wrapped cid)"

definition run :: "platform \<Rightarrow> State \<Rightarrow> operation list \<Rightarrow> State" where
  "run P s ops = foldl (step P) s ops"

text \<open>
  The Key Record of a channel and a user, as the store holds it: in the collection
  \<^verbatim>\<open>encryption/<channelId>\<close> under the key \<^verbatim>\<open>key-<userId>.json\<close>, the JSON text of
  the record whose identifier, owner, channel and date are those of the channel, the user
  and the clock, and whose \<^verbatim>\<open>encryptedKey\<close> is the given wrapped key.
\<close>

definition keyRecordEntry ::
    "platform \<Rightarrow> jsstring \<Rightarrow> jsstring \<Rightarrow> int \<Rightarrow> jsstring \<Rightarrow> (jsstring \<times> jsstring) \<times> jsstring" where
  "keyRecordEntry P cid uid now wrapped =
     ((js ''encryption/'' @ cid, js ''key-'' @ uid @ js ''.json''),
      JSON_stringify P (KeyReferenceJson
        \<lparr>reference_id = js ''key-'' @ cid @ js ''-'' @ uid,
         ownerUserId = uid,
         encryptedKey = wrapped,
         keyType = KeyType_channel,
         associatedId = cid,
         createdAt = now\<rparr>))"

text \<open>
  A key wrapped under the public half of the pair \<open>n\<close>: the base64 text of the RSA-OAEP
  encryption, under that half, of the JSON Web Key text of the key. What the private half
  of the pair \<open>n\<close> recovers from a wrapped key: the bytes that RSA-OAEP decrypts its base64
  text to.
\<close>

definition wrapUnder :: "platform \<Rightarrow> nat \<Rightarrow> entropy \<Rightarrow> byte list \<Rightarrow> jsstring option" where
  "wrapUnder P n seed k =
     map_option base64_encode
       (rsa_oaep_encrypt P n seed (TextEncoder_encode (JSON_stringify P (JwkOct k))))"

definition unwrapWith :: "platform \<Rightarrow> nat \<Rightarrow> jsstring \<Rightarrow> byte list option" where
  "unwrapWith P n wrapped =
     (case base64ToArrayBuffer wrapped of Inl e \<Rightarrow> None | Inr c \<Rightarrow> rsa_oaep_decrypt P n c)"

text \<open>
  The one object that an operation may write. \<^verbatim>\<open>generateChannelKey\<close>: the Key Record
  of its channel, its caller and its clock, with the key that it generates wrapped under
  the caller's public key, so that the private half of that pair recovers the key's text.
  \<^verbatim>\<open>importSharedChannelKey\<close>: the Key Record of its channel, its caller and its clock,
  with the wrapped key that it was given, which the caller's private key decrypts.
  \<^verbatim>\<open>getChannelKey\<close> and \<^verbatim>\<open>shareChannelKey\<close>: nothing.
\<close>

fun writesKeyRecord :: "platform \<Rightarrow> operation \<Rightarrow> (jsstring \<times> jsstring) \<times> jsstring \<Rightarrow> bool" where
  "writesKeyRecord P (GenerateChannelKey auth rng seed now cid) entry =
     (case user auth of
        None \<Rightarrow> False
      | Some u \<Rightarrow>
          (case JSON_parse P (ToString (publicKey u)) of
             Some (JwkRsaPublic n) \<Rightarrow>
               (case wrapUnder P n seed (getRandomValues rng 32) of
                  None \<Rightarrow> False
                | Some wrapped \<Rightarrow>
                    entry = keyRecordEntry P cid (user_id u) now wrapped \<and>
                    unwrapWith P n wrapped
                      = Some (TextEncoder_encode (JSON_stringify P (JwkOct (getRandomValues rng 32)))))
           | _ \<Rightarrow> False))"
| "writesKeyRecord P (ImportSharedChannelKey auth now wrapped cid) entry =
     (case user auth of
        None \<Rightarrow> False
      | Some u \<Rightarrow>
          (case getPrivateKey auth of
             Some (JwkRsaPrivate n) \<Rightarrow>
               entry = keyRecordEntry P cid (user_id u) now wrapped \<and>
               unwrapWith P n wrapped \<noteq> None
           | _ \<Rightarrow> False))"
| "writesKeyRecord P (GetChannelKey auth cid) entry = False"
| "writesKeyRecord P (ShareChannelKey auth seed cid recipientPublicKeyJwk) entry = False"

text \<open>
  Every object of a store was in an earlier store or is the Key Record that one of the
  operations in between writes: the store holds a key only as the \<^verbatim>\<open>encryptedKey\<close>
  of such a record.
\<close>

definition onlyKeyRecordsAdded :: "platform \<Rightarrow> operation list \<Rightarrow> Storage \<Rightarrow> Storage \<Rightarrow> bool" where
  "onlyKeyRecordsAdded P ops before after \<longleftrightarrow>
     list_all (\<lambda>entry. entry \<in> set (objects before) \<or> list_ex (\<lambda>op. writesKeyRecord P op entry) ops)
       (objects after)"

section \<open>A platform for the examples\<close>

text \<open>
  The examples run on a small platform that meets the four requirements above: its RSA
  puts the number of the pair in front of the data, its AES puts the nonce and the key in
  front of the data, and its JSON text is one letter for the shape followed by the field
  that the source reads back.
\<close>

definition example_rsa_encrypt :: "nat \<Rightarrow> entropy \<Rightarrow> byte list \<Rightarrow> byte list option" where
  "example_rsa_encrypt n seed d = (if length d \<le> 190 then Some (of_nat n # d) else None)"

definition example_rsa_decrypt :: "nat \<Rightarrow> byte list \<Rightarrow> byte list option" where
  "example_rsa_decrypt n c =
     (case c of [] \<Rightarrow> None | t # d \<Rightarrow> if t = of_nat n then Some d else None)"

definition example_aes_encrypt :: "byte list \<Rightarrow> byte list \<Rightarrow> byte list \<Rightarrow> byte list" where
  "example_aes_encrypt k nonce d = nonce @ k @ d"

definition example_aes_decrypt :: "byte list \<Rightarrow> byte list \<Rightarrow> byte list \<Rightarrow> byte list option" where
  "example_aes_decrypt k nonce c =
     (if take (length nonce) c = nonce \<and> take (length k) (drop (length nonce) c) = k
      then Some (drop (length nonce + length k) c) else None)"

definition example_stringify :: "json \<Rightarrow> jsstring" where
  "example_stringify v =
     (case v of
        JwkRsaPublic n \<Rightarrow> js ''P'' @ replicate n 120
      | JwkRsaPrivate n \<Rightarrow> js ''S'' @ replicate n 120
      | JwkOct k \<Rightarrow> js ''K'' @ base64_encode k
      | KeyReferenceJson r \<Rightarrow> js ''R'' @ encryptedKey r
      | MessageJson m \<Rightarrow>
          (case iv m of None \<Rightarrow> js ''M'' @ content m | Some i \<Rightarrow> js ''E'' @ content m)
      | OtherJson \<Rightarrow> js ''O'')"

definition example_message :: "jsstring \<Rightarrow> jsstring option \<Rightarrow> Message" where
  "example_message c i =
     \<lparr>message_id = js ''msg-1'', content = c, iv = i, senderId = js ''u1'',
      senderName = js ''Ann'', timestamp = 0, channelId = js ''channel-1'', reactions = None\<rparr>"

definition example_parse :: "jsstring \<Rightarrow> json option" where
  "example_parse s =
     (case s of
        [] \<Rightarrow> None
      | t # rest \<Rightarrow>
          if t = 80 then Some (JwkRsaPublic (length rest))
          else if t = 83 then Some (JwkRsaPrivate (length rest))
          else if t = 75 then
            (case base64ToArrayBuffer rest of Inl e \<Rightarrow> None | Inr k \<Rightarrow> Some (JwkOct k))
          else if t = 82 then Some (KeyReferenceJson (keyReference [] [] rest 0))
          else if t = 77 then Some (MessageJson (example_message rest None))
          else if t = 69 then Some (MessageJson (example_message rest (Some (js ''AAAAAAAAAAAAAAAA''))))
          else if t = 79 then Some OtherJson
          else None)"

definition example_platform :: platform where
  "example_platform =
     \<lparr>rsa_oaep_encrypt = example_rsa_encrypt,
      rsa_oaep_decrypt = example_rsa_decrypt,
      aes_gcm_encrypt = example_aes_encrypt,
      aes_gcm_decrypt = example_aes_decrypt,
      JSON_stringify = example_stringify,
      JSON_parse = example_parse\<rparr>"

section \<open>Round trips and example inputs\<close>

text \<open>
  One call of \<^verbatim>\<open>encryptWithSymmetricKey\<close> followed by \<^verbatim>\<open>decryptWithSymmetricKey\<close> on the
  \<^verbatim>\<open>ciphertext\<close> and the \<^verbatim>\<open>iv\<close> that it returned, and one call of
  \<^verbatim>\<open>encryptWithPublicKey\<close> followed by \<^verbatim>\<open>decryptWithPrivateKey\<close> on its result.
\<close>

definition symmetricRoundTrip :: "platform \<Rightarrow> entropy \<Rightarrow> jsstring \<Rightarrow> CryptoKey \<Rightarrow> error + jsstring" where
  "symmetricRoundTrip P rng m key =
     (case encryptWithSymmetricKey P rng m key of
        Inl e \<Rightarrow> Inl e
      | Inr (ciphertext, iv64) \<Rightarrow> decryptWithSymmetricKey P ciphertext iv64 key)"

definition wrapRoundTrip ::
    "platform \<Rightarrow> entropy \<Rightarrow> jsstring \<Rightarrow> CryptoKey \<Rightarrow> CryptoKey \<Rightarrow> error + jsstring" where
  "wrapRoundTrip P seed s pubKey privateKey =
     (case encryptWithPublicKey P seed s pubKey of
        Inl e \<Rightarrow> Inl e
      | Inr wrapped \<Rightarrow> decryptWithPrivateKey P wrapped privateKey)"

text \<open>
  The share flow: the creator generates the key of a channel and shares it under the
  recipient's public key; the recipient, in a process of its own on the same store,
  imports the wrapped key. The result is the state of the creator's process and of the
  recipient's process afterwards, or \<open>None\<close> when a step fails.
\<close>

definition shareFlow ::
    "platform \<Rightarrow> AuthContext \<Rightarrow> AuthContext \<Rightarrow> json \<Rightarrow> entropy \<Rightarrow> entropy \<Rightarrow> entropy
      \<Rightarrow> int \<Rightarrow> int \<Rightarrow> State \<Rightarrow> (jsstring \<rightharpoonup> CryptoKey) \<Rightarrow> jsstring \<Rightarrow> (State \<times> State) option" where
  "shareFlow P authA authB publicKeyB rng seed seed' now now' sA cacheB cid =
     (case generateChannelKey P authA rng seed now sA cid of
        (False, sA1) \<Rightarrow> None
      | (True, sA1) \<Rightarrow>
          (case shareChannelKey P authA seed' sA1 cid publicKeyB of
             (Inl e, sA2) \<Rightarrow> None
           | (Inr wrapped, sA2) \<Rightarrow>
               (case importSharedChannelKey P authB now'
                       \<lparr>channelKeysCache = cacheB, storage = storage sA2\<rparr> wrapped cid of
                  (False, sB) \<Rightarrow> None
                | (True, sB) \<Rightarrow> Some (sA2\<lparr>storage := storage sB\<rparr>, sB))))"

text \<open>One user encrypts a message for a channel and another user decrypts the result.\<close>

definition sendAndRead ::
    "platform \<Rightarrow> AuthContext \<Rightarrow> State \<Rightarrow> entropy \<Rightarrow> jsstring \<Rightarrow> AuthContext \<Rightarrow> State \<Rightarrow> jsstring
      \<Rightarrow> error + jsstring" where
  "sendAndRead P sender sS rng message reader sR cid =
     (case fst (encryptMessage P sender rng sS message cid) of
        Inl e \<Rightarrow> Inl e
      | Inr (ciphertext, iv64) \<Rightarrow> fst (decryptMessage P reader sR ciphertext iv64 cid))"

text \<open>
  What both users observe after the share flow: the result of \<^verbatim>\<open>getChannelKey\<close> for the
  creator and for the recipient, and what each of the two reads of a message that each of
  the two has encrypted for the channel (creator to creator, creator to recipient,
  recipient to creator, recipient to recipient).
\<close>

definition afterShareFlow ::
    "platform \<Rightarrow> AuthContext \<Rightarrow> AuthContext \<Rightarrow> json \<Rightarrow> entropy \<Rightarrow> entropy \<Rightarrow> entropy
      \<Rightarrow> int \<Rightarrow> int \<Rightarrow> State \<Rightarrow> (jsstring \<rightharpoonup> CryptoKey) \<Rightarrow> jsstring \<Rightarrow> entropy \<Rightarrow> jsstring
      \<Rightarrow> (CryptoKey option \<times> CryptoKey option \<times> (error + jsstring) list) option" where
  "afterShareFlow P authA authB publicKeyB rng seed seed' now now' sA cacheB cid rngM message =
     (case shareFlow P authA authB publicKeyB rng seed seed' now now' sA cacheB cid of
        None \<Rightarrow> None
      | Some (sA', sB') \<Rightarrow>
          Some (fst (getChannelKey P authA sA' cid),
                fst (getChannelKey P authB sB' cid),
                [sendAndRead P authA sA' rngM message authA sA' cid,
                 sendAndRead P authA sA' rngM message authB sB' cid,
                 sendAndRead P authB sB' rngM message authA sA' cid,
                 sendAndRead P authB sB' rngM message authB sB' cid]))"

text \<open>Two random sources that differ in every byte.\<close>

definition example_rng :: entropy where
  "example_rng i = of_nat i"

definition example_rng' :: entropy where
  "example_rng' i = of_nat (i + 100)"

text \<open>
  Two users with generated key pairs, a user whose private key is not on this device, an
  empty process with an empty store, and a store whose Key Record for the first user does
  not unwrap.
\<close>

definition example_channel :: jsstring where
  "example_channel = js ''channel-1''"

definition example_userA :: User where
  "example_userA =
     \<lparr>user_id = js ''u1'', name = js ''Ann'',
      publicKey = Some (example_stringify (JwkRsaPublic 1))\<rparr>"

definition example_userB :: User where
  "example_userB =
     \<lparr>user_id = js ''u2'', name = js ''Bob'',
      publicKey = Some (example_stringify (JwkRsaPublic 2))\<rparr>"

definition example_authA :: AuthContext where
  "example_authA = \<lparr>user = Some example_userA, getPrivateKey = Some (JwkRsaPrivate 1)\<rparr>"

definition example_authB :: AuthContext where
  "example_authB = \<lparr>user = Some example_userB, getPrivateKey = Some (JwkRsaPrivate 2)\<rparr>"

definition example_auth_without_key :: AuthContext where
  "example_auth_without_key = \<lparr>user = Some example_userA, getPrivateKey = None\<rparr>"

definition example_state :: State where
  "example_state =
     \<lparr>channelKeysCache = Map.empty, storage = \<lparr>isInitialized = True, objects = []\<rparr>\<rparr>"

text \<open>A process whose storage adapter is not initialised.\<close>

definition example_state_unavailable :: State where
  "example_state_unavailable =
     \<lparr>channelKeysCache = Map.empty, storage = \<lparr>isInitialized = False, objects = []\<rparr>\<rparr>"

definition example_state_corrupt :: State where
  "example_state_corrupt =
     \<lparr>channelKeysCache = Map.empty,
      storage = \<lparr>isInitialized = True,
                 objects = [((encryptionPath example_channel, keyFileName (Some example_userA)),
                             example_stringify (KeyReferenceJson
                               (keyReference example_channel (js ''u1'') (js ''AAAA'') 0)))]\<rparr>\<rparr>"

text \<open>The process in which the first user has created the example channel.\<close>

definition example_state_created :: State where
  "example_state_created =
     snd (generateChannelKey example_platform example_authA example_rng' example_rng 0
            example_state example_channel)"

text \<open>
  A sequence of operations: the first user creates the channel and shares its key with the
  second user, who imports a wrapped key and asks for the key of the channel.
\<close>

definition example_operations :: "operation list" where
  "example_operations =
     [GenerateChannelKey example_authA example_rng' example_rng 0 example_channel,
      ShareChannelKey example_authA example_rng example_channel (JwkRsaPublic 2),
      ImportSharedChannelKey example_authB 1 (js ''AkFB'') example_channel,
      GetChannelKey example_authB example_channel]"

text \<open>
  A store with two messages of the example channel, the first without \<^verbatim>\<open>iv\<close> and the
  second with an \<^verbatim>\<open>iv\<close> and a content that is not a ciphertext.
\<close>

definition example_state_messages :: State where
  "example_state_messages =
     \<lparr>channelKeysCache = Map.empty,
      storage = \<lparr>isInitialized = True,
                 objects = [((messagesPath example_channel, js ''m1.json''),
                             example_stringify (MessageJson (example_message (js ''hello'') None))),
                            ((messagesPath example_channel, js ''m2.json''),
                             example_stringify (MessageJson
                               (example_message (js ''AAAA'') (Some (js ''AAAAAAAAAAAAAAAA'')))))]\<rparr>\<rparr>"

definition example_message_state :: MessageState where
  "example_message_state = \<lparr>messages = [], currentChannelId = Some example_channel\<rparr>"

text \<open>
  The message list of a process that shows one encrypted message of the example channel in
  clear; the \<^verbatim>\<open>iv\<close> of the message is the base64 text of twelve zero bytes.
\<close>

definition example_message_shown :: MessageState where
  "example_message_shown =
     \<lparr>messages = [example_message (js ''hello'') (Some (js ''AAAAAAAAAAAAAAAA''))],
      currentChannelId = Some example_channel\<rparr>"

section \<open>Base64 decoding undoes base64 encoding\<close>

lemma unat_of_nat16: "n < 65536 \<Longrightarrow> unat (of_nat n :: 16 word) = n"
  by (simp add: unat_of_nat)

lemma unat_of_nat8: "n < 256 \<Longrightarrow> unat (of_nat n :: 8 word) = n"
  by (simp add: unat_of_nat)

lemma unat_byte_less: "unat (b :: byte) < 256"
  using unsigned_less [of b, where ?'a = nat] by simp

lemma unat_ucast_byte: "unat (ucast (b :: byte) :: 16 word) = unat b"
proof -
  have "unat (ucast b :: 16 word) = take_bit LENGTH(16) (unat b)"
    by (rule unsigned_ucast_eq)
  moreover have "unat b < 2 ^ LENGTH(16)"
    using unat_byte_less [of b] by simp
  ultimately show ?thesis
    by (simp only: take_bit_nat_eq_self)
qed

lemma ucast_byte_roundtrip: "(ucast (ucast (b :: byte) :: 16 word) :: byte) = b"
proof -
  have "unat (ucast (ucast b :: 16 word) :: byte) = take_bit LENGTH(8) (unat (ucast b :: 16 word))"
    by (rule unsigned_ucast_eq)
  also have "\<dots> = take_bit LENGTH(8) (unat b)"
    by (simp only: unat_ucast_byte)
  also have "\<dots> = unat b"
    by (rule take_bit_nat_eq_self) (use unat_byte_less [of b] in simp)
  finally show ?thesis
    by (simp only: word_unat_eq_iff)
qed

lemma ucast_byte_le255: "(ucast (b :: byte) :: 16 word) \<le> 255"
  using unat_byte_less [of b] by (simp add: word_le_nat_alt unat_ucast_byte)

lemma b64_code_less: "b64_code n < 128"
  by (auto simp: b64_code_def)

lemma unat_b64_char: "unat (b64_char n) = b64_code n"
  using b64_code_less [of n] by (simp add: b64_char_def unat_of_nat16)

lemma b64_index_char: "n < 64 \<Longrightarrow> b64_index (b64_char n) = Some n"
  by (simp add: b64_index_def unat_b64_char Let_def) (auto simp: b64_code_def)

lemma b64_char_not_pad: "n < 64 \<Longrightarrow> b64_char n \<noteq> 61"
  by (simp add: word_unat_eq_iff unat_b64_char) (auto simp: b64_code_def)

lemma b64_char_not_ws: "n < 64 \<Longrightarrow> \<not> ascii_whitespace (b64_char n)"
  by (simp add: ascii_whitespace_def word_unat_eq_iff unat_b64_char) (auto simp: b64_code_def)

lemma b64_char_le255: "b64_char n \<le> 255"
  using b64_code_less [of n] by (simp add: word_le_nat_alt unat_b64_char)


lemma sextet_arith:
  fixes a q :: nat
  shows "q < 16 \<Longrightarrow> (a mod 4 * 16 + q) div 16 = a mod 4"
    and "q < 16 \<Longrightarrow> (a mod 4 * 16 + q) mod 16 = q"
    and "q < 4 \<Longrightarrow> (a mod 16 * 4 + q) div 4 = a mod 16"
    and "q < 4 \<Longrightarrow> (a mod 16 * 4 + q) mod 4 = q"
    and "a mod 4 * 16 div 16 = a mod 4"
    and "a mod 16 * 4 div 4 = a mod 16"
  by simp_all

lemma sextet_bounds:
  fixes a q :: nat
  shows "a < 256 \<Longrightarrow> a div 4 < 64"
    and "a < 256 \<Longrightarrow> a div 16 < 16"
    and "a < 256 \<Longrightarrow> a div 64 < 4"
    and "q < 16 \<Longrightarrow> a mod 4 * 16 + q < 64"
    and "q < 4 \<Longrightarrow> a mod 16 * 4 + q < 64"
    and "a mod 4 * 16 < 64"
    and "a mod 16 * 4 < 64"
    and "a mod 64 < 64"
  by simp_all

lemma sextets_less: "\<forall>n \<in> set (sextets bs). n < 64"
proof (induction bs rule: sextets.induct)
  case 1
  show ?case by simp
next
  case (2 a)
  show ?case using unat_byte_less [of a] by (simp add: sextet_bounds)
next
  case (3 a b)
  show ?case using unat_byte_less [of a] unat_byte_less [of b] by (simp add: sextet_bounds)
next
  case (4 a b c rest)
  then show ?case
    using unat_byte_less [of a] unat_byte_less [of b] unat_byte_less [of c]
    by (simp add: sextet_bounds)
qed

lemma base64_encode_shape:
  "base64_encode bs = map b64_char (sextets bs) @ replicate (padding bs) 61"
  by (induction bs rule: sextets.induct) (simp_all add: numeral_2_eq_2)

lemma padding_le2: "padding bs \<le> 2"
  by (induction bs rule: padding.induct) simp_all

lemma sextets_empty_padding: "sextets bs = [] \<Longrightarrow> padding bs = 0"
  by (induction bs rule: sextets.induct) simp_all

lemma length_sextets_padding: "(length (sextets bs) + padding bs) mod 4 = 0"
  by (induction bs rule: sextets.induct) simp_all

lemma length_sextets_mod4: "length (sextets bs) mod 4 \<noteq> 1"
  by (induction bs rule: sextets.induct) (simp_all add: mod_Suc)

lemma base64_decode_sextets: "base64_decode (sextets bs) = bs"
proof (induction bs rule: sextets.induct)
  case 1
  show ?case by simp
next
  case (2 a)
  show ?case by (simp add: sextet_arith)
next
  case (3 a b)
  show ?case using unat_byte_less [of b] by (simp add: sextet_arith sextet_bounds)
next
  case (4 a b c rest)
  then show ?case using unat_byte_less [of b] unat_byte_less [of c]
    by (simp add: sextet_arith sextet_bounds)
qed


lemma those_b64_index: "\<forall>n \<in> set ns. n < 64 \<Longrightarrow> those (map b64_index (map b64_char ns)) = Some ns"
  by (induction ns) (simp_all add: b64_index_char)

lemma filter_ws_encoded:
  assumes "\<forall>n \<in> set ns. n < 64"
  shows "filter (\<lambda>u. \<not> ascii_whitespace u) (map b64_char ns @ replicate k 61)
         = map b64_char ns @ replicate k 61"
proof -
  have "\<not> ascii_whitespace 61" by (simp add: ascii_whitespace_def)
  then have "\<forall>u \<in> set (map b64_char ns @ replicate k 61). \<not> ascii_whitespace u"
    using assms by (auto simp: b64_char_not_ws)
  then show ?thesis by (simp only: filter_id_conv)
qed

lemma remove_padding_encoded:
  assumes "\<forall>n \<in> set ns. n < 64" and "k \<le> 2" and "ns = [] \<Longrightarrow> k = 0"
  shows "remove_padding (map b64_char ns @ replicate k 61) = map b64_char ns"
proof -
  have last_ok: "ns \<noteq> [] \<Longrightarrow> last (map b64_char ns) \<noteq> 61"
    using assms(1) by (simp add: last_map b64_char_not_pad)
  consider "k = 0" | "k = 1" | "k = 2" using assms(2) by linarith
  then show ?thesis
  proof cases
    case 1
    then show ?thesis using last_ok by (cases "ns = []") (simp_all add: remove_padding_def)
  next
    case 2
    then have "ns \<noteq> []" using assms(3) by auto
    then show ?thesis using 2 last_ok by (simp add: remove_padding_def butlast_append)
  next
    case 3
    then have "ns \<noteq> []" using assms(3) by auto
    then show ?thesis using 3 last_ok
      by (simp add: remove_padding_def butlast_append numeral_2_eq_2)
  qed
qed

lemma atob_base64_encode: "atob (base64_encode bs) = Inr (map ucast bs)"
proof -
  let ?ns = "sextets bs" and ?k = "padding bs"
  let ?body = "map b64_char ?ns"
  have less: "\<forall>n \<in> set ?ns. n < 64" by (rule sextets_less)
  have shape: "base64_encode bs = ?body @ replicate ?k 61" by (rule base64_encode_shape)
  have f: "filter (\<lambda>u. \<not> ascii_whitespace u) (base64_encode bs) = ?body @ replicate ?k 61"
    unfolding shape by (rule filter_ws_encoded [OF less])
  have len: "length (?body @ replicate ?k 61) mod 4 = 0"
    using length_sextets_padding [of bs] by simp
  have rp: "remove_padding (?body @ replicate ?k 61) = ?body"
    by (rule remove_padding_encoded [OF less padding_le2]) (simp add: sextets_empty_padding)
  have l1: "length ?body mod 4 \<noteq> 1" using length_sextets_mod4 [of bs] by simp
  have th: "those (map b64_index ?body) = Some ?ns" by (rule those_b64_index [OF less])
  have "atob (base64_encode bs)
        = (if length ?body mod 4 = 1 then Inl InvalidCharacterError
           else (case those (map b64_index ?body) of
                   None \<Rightarrow> Inl InvalidCharacterError
                 | Some sx \<Rightarrow> Inr (map ucast (base64_decode sx))))"
    unfolding atob_def f Let_def by (simp only: len rp if_True refl)
  then show ?thesis
    using l1 by (simp only: th if_False option.case base64_decode_sextets)
qed

lemma arrayBufferToBase64_eq: "arrayBufferToBase64 buffer = Inr (base64_encode buffer)"
proof -
  have "\<not> list_ex (\<lambda>u. 255 < u) (map ucast buffer :: 16 word list)"
    using ucast_byte_le255 by (auto simp: list_ex_iff not_less)
  moreover have "map ucast (map ucast buffer :: 16 word list) = buffer"
    by (simp add: ucast_byte_roundtrip comp_def)
  ultimately show ?thesis by (simp add: arrayBufferToBase64_def btoa_def)
qed

lemma base64ToArrayBuffer_encode: "base64ToArrayBuffer (base64_encode bs) = Inr bs"
  by (simp add: base64ToArrayBuffer_def atob_base64_encode ucast_byte_roundtrip comp_def)

section \<open>The text encoder and decoder on ASCII strings\<close>

lemmas utf8_eval = TextDecoder_decode_def TextEncoder_encode_def utf8_encode_def unit_scalar_def
  is_lead_def is_trail_def strip_bom_def utf16_units_def

lemma ascii_Cons: "ascii (u # s) \<longleftrightarrow> unat u < 0x80 \<and> ascii s"
  by (simp add: ascii_def)

lemma ascii_append: "ascii (s @ t) \<longleftrightarrow> ascii s \<and> ascii t"
  by (simp add: ascii_def)

lemma ascii_not_surrogate: "unat u < 0x80 \<Longrightarrow> unit_scalar u = unat u"
  by (simp add: unit_scalar_def is_lead_def is_trail_def)

lemma scalar_values_ascii: "ascii s \<Longrightarrow> scalar_values s = map unat s"
proof (induction s rule: scalar_values.induct)
  case 1
  show ?case by simp
next
  case (2 u)
  then show ?case by (simp add: ascii_Cons ascii_not_surrogate)
next
  case (3 u v rest)
  then have "\<not> is_lead u" by (simp add: ascii_Cons is_lead_def)
  with 3 show ?case by (simp add: ascii_Cons ascii_not_surrogate)
qed

lemma utf8_decoder_ascii:
  "list_all (\<lambda>b. unat b < 0x80) bs \<Longrightarrow> utf8_decoder 0 0 0x80 0xBF bs = map unat bs"
  by (induction bs) simp_all

lemma unat_ucast_unit_byte: "unat u < 256 \<Longrightarrow> unat (ucast (u :: 16 word) :: byte) = unat u"
proof -
  assume a: "unat u < 256"
  have "unat (ucast u :: byte) = take_bit LENGTH(8) (unat u)"
    by (rule unsigned_ucast_eq)
  moreover have "unat u < 2 ^ LENGTH(8)" using a by simp
  ultimately show ?thesis by (simp only: take_bit_nat_eq_self)
qed

lemma TextEncoder_encode_ascii: "ascii s \<Longrightarrow> TextEncoder_encode s = map ucast s"
proof -
  assume a: "ascii s"
  have "concat (map utf8_encode (map unat s)) = map ucast s" using a
    by (induction s) (simp_all add: ascii_Cons utf8_encode_def)
  then show ?thesis using a by (simp add: TextEncoder_encode_def scalar_values_ascii)
qed

lemma length_TextEncoder_encode_ascii: "ascii s \<Longrightarrow> length (TextEncoder_encode s) = length s"
  by (simp add: TextEncoder_encode_ascii)

lemma TextDecoder_decode_ascii:
  assumes "ascii s"
  shows "TextDecoder_decode (map ucast s) = s"
proof -
  have bytes: "list_all (\<lambda>b. unat b < 0x80) (map ucast s :: byte list)"
    using assms by (induction s) (simp_all add: ascii_Cons unat_ucast_unit_byte)
  have dec: "utf8_decoder 0 0 0x80 0xBF (map ucast s :: byte list) = map unat s"
    using assms unfolding utf8_decoder_ascii [OF bytes]
    by (induction s) (simp_all add: ascii_Cons unat_ucast_unit_byte)
  have bom: "strip_bom (map unat s) = map unat s"
    using assms by (cases s) (auto simp: strip_bom_def ascii_Cons)
  have "concat (map utf16_units (map unat s)) = s"
    using assms by (induction s) (simp_all add: ascii_Cons utf16_units_def)
  then show ?thesis by (simp add: TextDecoder_decode_def dec bom)
qed

lemma ascii_utf8_preserved: "ascii s \<Longrightarrow> utf8_preserved s"
  by (simp add: utf8_preserved_def TextEncoder_encode_ascii TextDecoder_decode_ascii)

section \<open>The text decoder undoes the text encoder on well-formed strings\<close>

lemma div_4096: "(c :: nat) div 4096 = c div 64 div 64"
  by (simp add: div_mult2_eq [symmetric])

lemma div_262144: "(c :: nat) div 262144 = c div 64 div 64 div 64"
  by (simp add: div_mult2_eq [symmetric])

lemma mod_lead2: "x < 32 \<Longrightarrow> (192 + x :: nat) mod 32 = x"
proof -
  assume "x < 32"
  have "(192 + x) mod 32 = (6 * 32 + x) mod 32" by simp
  also have "\<dots> = x mod 32" by (simp only: mod_mult_self3)
  finally show ?thesis using \<open>x < 32\<close> by simp
qed

lemma mod_lead3: "x < 16 \<Longrightarrow> (224 + x :: nat) mod 16 = x"
proof -
  assume "x < 16"
  have "(224 + x) mod 16 = (14 * 16 + x) mod 16" by simp
  also have "\<dots> = x mod 16" by (simp only: mod_mult_self3)
  finally show ?thesis using \<open>x < 16\<close> by simp
qed

lemma mod_lead4: "x < 8 \<Longrightarrow> (240 + x :: nat) mod 8 = x"
proof -
  assume "x < 8"
  have "(240 + x) mod 8 = (30 * 8 + x) mod 8" by simp
  also have "\<dots> = x mod 8" by (simp only: mod_mult_self3)
  finally show ?thesis using \<open>x < 8\<close> by simp
qed

lemma mod_continuation: "r < 64 \<Longrightarrow> (128 + r :: nat) mod 64 = r"
proof -
  assume "r < 64"
  have "(128 + r) mod 64 = (2 * 64 + r) mod 64" by simp
  also have "\<dots> = r mod 64" by (simp only: mod_mult_self3)
  finally show ?thesis using \<open>r < 64\<close> by simp
qed

lemma unat_byte_plus: "k + x < 256 \<Longrightarrow> unat (of_nat (k + x) :: byte) = k + x"
  by (rule unat_of_nat8)

lemma decoder_lead2:
  assumes "2 \<le> q" and "q < 32"
  shows "utf8_decoder 0 0 0x80 0xBF (of_nat (192 + q) # bs) = utf8_decoder q 1 0x80 0xBF bs"
proof -
  have u: "unat (of_nat (192 + q) :: byte) = 192 + q"
    using assms by (intro unat_byte_plus) simp
  show ?thesis
    using assms by (simp add: u mod_lead2 del: of_nat_add)
qed

lemma decoder_lead3:
  assumes "q < 16"
  shows "utf8_decoder 0 0 0x80 0xBF (of_nat (224 + q) # bs)
         = utf8_decoder q 2 (if q = 0 then 0xA0 else 0x80) (if q = 13 then 0x9F else 0xBF) bs"
proof -
  have u: "unat (of_nat (224 + q) :: byte) = 224 + q"
    using assms by (intro unat_byte_plus) simp
  show ?thesis
    using assms by (simp add: u mod_lead3 del: of_nat_add)
qed

lemma decoder_lead4:
  assumes "q \<le> 4"
  shows "utf8_decoder 0 0 0x80 0xBF (of_nat (240 + q) # bs)
         = utf8_decoder q 3 (if q = 0 then 0x90 else 0x80) (if q = 4 then 0x8F else 0xBF) bs"
proof -
  have u: "unat (of_nat (240 + q) :: byte) = 240 + q"
    using assms by (intro unat_byte_plus) simp
  show ?thesis
    using assms by (simp add: u mod_lead4 del: of_nat_add)
qed

lemma decoder_continuation_last:
  assumes "r < 64" and "lower \<le> 128 + r" and "128 + r \<le> upper"
  shows "utf8_decoder cp 1 lower upper (of_nat (128 + r) # bs)
         = (cp * 64 + r) # utf8_decoder 0 0 0x80 0xBF bs"
proof -
  have u: "unat (of_nat (128 + r) :: byte) = 128 + r"
    using assms by (intro unat_byte_plus) simp
  show ?thesis
    using assms by (simp add: u mod_continuation del: of_nat_add)
qed

lemma decoder_continuation_more:
  assumes "r < 64" and "lower \<le> 128 + r" and "128 + r \<le> upper" and "1 < needed"
  shows "utf8_decoder cp needed lower upper (of_nat (128 + r) # bs)
         = utf8_decoder (cp * 64 + r) (needed - 1) 0x80 0xBF bs"
proof -
  have u: "unat (of_nat (128 + r) :: byte) = 128 + r"
    using assms by (intro unat_byte_plus) simp
  show ?thesis
    using assms by (simp add: u mod_continuation del: of_nat_add)
qed


lemma utf8_roundtrip_1:
  assumes "c < 0x80"
  shows "utf8_decoder 0 0 0x80 0xBF (utf8_encode c @ bs) = c # utf8_decoder 0 0 0x80 0xBF bs"
  using assms by (simp add: utf8_encode_def unat_of_nat8)

lemma utf8_roundtrip_2:
  assumes "0x80 \<le> c" and "c < 0x800"
  shows "utf8_decoder 0 0 0x80 0xBF (utf8_encode c @ bs) = c # utf8_decoder 0 0 0x80 0xBF bs"
proof -
  have e: "utf8_encode c @ bs = of_nat (192 + c div 64) # of_nat (128 + c mod 64) # bs"
    using assms by (simp add: utf8_encode_def)
  have q: "2 \<le> c div 64" "c div 64 < 32" using assms by simp_all
  have "utf8_decoder 0 0 0x80 0xBF (utf8_encode c @ bs)
          = utf8_decoder (c div 64) 1 0x80 0xBF (of_nat (128 + c mod 64) # bs)"
    unfolding e by (rule decoder_lead2 [OF q])
  also have "\<dots> = (c div 64 * 64 + c mod 64) # utf8_decoder 0 0 0x80 0xBF bs"
    by (rule decoder_continuation_last) simp_all
  finally show ?thesis by simp
qed

lemma utf8_roundtrip_3:
  assumes "0x800 \<le> c" and "c < 0x10000" and "c < 0xD800 \<or> 0xDFFF < c"
  shows "utf8_decoder 0 0 0x80 0xBF (utf8_encode c @ bs) = c # utf8_decoder 0 0 0x80 0xBF bs"
proof -
  let ?a = "c div 64 div 64" and ?b = "c div 64 mod 64" and ?d = "c mod 64"
  have e: "utf8_encode c @ bs
             = of_nat (224 + ?a) # of_nat (128 + ?b) # of_nat (128 + ?d) # bs"
    using assms by (simp add: utf8_encode_def div_4096)
  have a: "?a < 16" using assms by simp
  have lo: "(if ?a = 0 then 0xA0 else 0x80) \<le> 128 + ?b"
  proof (cases "?a = 0")
    case True
    have "32 \<le> c div 64" using assms by simp
    moreover have "c div 64 < 64" using True by (simp add: div_eq_0_iff)
    ultimately show ?thesis using True by simp
  next
    case False
    then show ?thesis by simp
  qed
  have hi: "128 + ?b \<le> (if ?a = 13 then 0x9F else 0xBF)"
  proof (cases "?a = 13")
    case True
    have eq: "c div 64 = 13 * 64 + ?b"
      using True div_mult_mod_eq [of "c div 64" 64] by simp
    have "c div 64 div 64 < 14" using True by simp
    then have "c < 0xE000" by simp
    then have "c < 0xD800" using assms(3) by simp
    then have "c div 64 < 864" by simp
    then have "?b < 32" using eq by simp
    then show ?thesis using True by simp
  next
    case False
    have "?b < 64" by simp
    then show ?thesis using False by simp
  qed
  have "utf8_decoder 0 0 0x80 0xBF (utf8_encode c @ bs)
          = utf8_decoder ?a 2 (if ?a = 0 then 0xA0 else 0x80) (if ?a = 13 then 0x9F else 0xBF)
              (of_nat (128 + ?b) # of_nat (128 + ?d) # bs)"
    unfolding e by (rule decoder_lead3 [OF a])
  also have "\<dots> = utf8_decoder (?a * 64 + ?b) (2 - 1) 0x80 0xBF (of_nat (128 + ?d) # bs)"
    by (rule decoder_continuation_more [OF _ lo hi]) simp_all
  also have "\<dots> = utf8_decoder (c div 64) 1 0x80 0xBF (of_nat (128 + ?d) # bs)"
    by simp
  also have "\<dots> = (c div 64 * 64 + ?d) # utf8_decoder 0 0 0x80 0xBF bs"
    by (rule decoder_continuation_last) simp_all
  finally show ?thesis by simp
qed

lemma utf8_roundtrip_4:
  assumes "0x10000 \<le> c" and "c < 0x110000"
  shows "utf8_decoder 0 0 0x80 0xBF (utf8_encode c @ bs) = c # utf8_decoder 0 0 0x80 0xBF bs"
proof -
  let ?z = "c div 64 div 64 div 64" and ?a = "c div 64 div 64 mod 64"
  let ?b = "c div 64 mod 64" and ?d = "c mod 64"
  have e: "utf8_encode c @ bs
             = of_nat (240 + ?z) # of_nat (128 + ?a) # of_nat (128 + ?b) # of_nat (128 + ?d) # bs"
    using assms by (simp add: utf8_encode_def div_4096 div_262144)
  have z: "?z \<le> 4" using assms by simp
  have lo: "(if ?z = 0 then 0x90 else 0x80) \<le> 128 + ?a"
  proof (cases "?z = 0")
    case True
    have "16 \<le> c div 64 div 64" using assms by simp
    moreover have "c div 64 div 64 < 64" using True by (simp add: div_eq_0_iff)
    ultimately show ?thesis using True by simp
  next
    case False
    then show ?thesis by simp
  qed
  have hi: "128 + ?a \<le> (if ?z = 4 then 0x8F else 0xBF)"
  proof (cases "?z = 4")
    case True
    have eq: "c div 64 div 64 = 4 * 64 + ?a"
      using True div_mult_mod_eq [of "c div 64 div 64" 64] by simp
    have "c div 64 div 64 < 272" using assms by simp
    then have "?a < 16" using eq by simp
    then show ?thesis using True by simp
  next
    case False
    have "?a < 64" by simp
    then show ?thesis using False by simp
  qed
  have "utf8_decoder 0 0 0x80 0xBF (utf8_encode c @ bs)
          = utf8_decoder ?z 3 (if ?z = 0 then 0x90 else 0x80) (if ?z = 4 then 0x8F else 0xBF)
              (of_nat (128 + ?a) # of_nat (128 + ?b) # of_nat (128 + ?d) # bs)"
    unfolding e by (rule decoder_lead4 [OF z])
  also have "\<dots> = utf8_decoder (?z * 64 + ?a) (3 - 1) 0x80 0xBF
                       (of_nat (128 + ?b) # of_nat (128 + ?d) # bs)"
    by (rule decoder_continuation_more [OF _ lo hi]) simp_all
  also have "\<dots> = utf8_decoder (c div 64 div 64) 2 0x80 0xBF
                       (of_nat (128 + ?b) # of_nat (128 + ?d) # bs)"
    by simp
  also have "\<dots> = utf8_decoder (c div 64 div 64 * 64 + ?b) (2 - 1) 0x80 0xBF
                       (of_nat (128 + ?d) # bs)"
    by (rule decoder_continuation_more) simp_all
  also have "\<dots> = utf8_decoder (c div 64) 1 0x80 0xBF (of_nat (128 + ?d) # bs)"
    by simp
  also have "\<dots> = (c div 64 * 64 + ?d) # utf8_decoder 0 0 0x80 0xBF bs"
    by (rule decoder_continuation_last) simp_all
  finally show ?thesis by simp
qed

lemma utf8_roundtrip_scalar:
  assumes "scalar c"
  shows "utf8_decoder 0 0 0x80 0xBF (utf8_encode c @ bs) = c # utf8_decoder 0 0 0x80 0xBF bs"
proof -
  consider "c < 0x80" | "0x80 \<le> c \<and> c < 0x800" | "0x800 \<le> c \<and> c < 0x10000"
    | "0x10000 \<le> c" by linarith
  then show ?thesis
  proof cases
    case 1
    then show ?thesis by (rule utf8_roundtrip_1)
  next
    case 2
    then show ?thesis using utf8_roundtrip_2 by blast
  next
    case 3
    moreover have "c < 0xD800 \<or> 0xDFFF < c" using assms by (auto simp: scalar_def)
    ultimately show ?thesis using utf8_roundtrip_3 by blast
  next
    case 4
    moreover have "c < 0x110000" using assms by (simp add: scalar_def)
    ultimately show ?thesis using utf8_roundtrip_4 by blast
  qed
qed

lemma utf8_roundtrip_scalars:
  "list_all scalar cs \<Longrightarrow> utf8_decoder 0 0 0x80 0xBF (concat (map utf8_encode cs)) = cs"
  by (induction cs) (simp_all add: utf8_roundtrip_scalar)

lemma unat_unit_less: "unat (u :: 16 word) < 65536"
  using unsigned_less [of u, where ?'a = nat] by simp

lemma pair_scalar:
  assumes "is_lead u" and "is_trail v"
  shows "scalar (0x10000 + (unat u - 0xD800) * 0x400 + (unat v - 0xDC00))"
    and "utf16_units (0x10000 + (unat u - 0xD800) * 0x400 + (unat v - 0xDC00)) = [u, v]"
    and "0x10000 + (unat u - 0xD800) * 0x400 + (unat v - 0xDC00) \<noteq> 0xFEFF"
proof -
  let ?h = "unat u - 0xD800" and ?l = "unat v - 0xDC00"
  have h: "?h < 0x400" and hu: "0xD800 + ?h = unat u"
    using assms(1) by (auto simp: is_lead_def)
  have l: "?l < 0x400" and lv: "0xDC00 + ?l = unat v"
    using assms(2) by (auto simp: is_trail_def)
  have "?h * 0x400 \<le> 0x3FF * 0x400" using h by simp
  then show "scalar (0x10000 + ?h * 0x400 + ?l)"
    using l by (simp add: scalar_def)
  have d: "(?h * 0x400 + ?l) div 0x400 = ?h" and m: "(?h * 0x400 + ?l) mod 0x400 = ?l"
    using l by simp_all
  have "utf16_units (0x10000 + ?h * 0x400 + ?l)
          = [of_nat (0xD800 + (?h * 0x400 + ?l) div 0x400),
             of_nat (0xDC00 + (?h * 0x400 + ?l) mod 0x400)]"
    by (simp add: utf16_units_def)
  also have "\<dots> = [of_nat (unat u), of_nat (unat v)]"
    by (simp only: d m hu lv)
  finally show "utf16_units (0x10000 + ?h * 0x400 + ?l) = [u, v]"
    by simp
  show "0x10000 + ?h * 0x400 + ?l \<noteq> 0xFEFF" by simp
qed

lemma unit_scalar_plain:
  assumes "\<not> is_lead u" and "\<not> is_trail u"
  shows "unit_scalar u = unat u" and "scalar (unat u)" and "utf16_units (unat u) = [u]"
  using assms unat_unit_less [of u]
  by (auto simp: unit_scalar_def scalar_def utf16_units_def is_lead_def is_trail_def)

lemma not_lead_and_trail: "is_lead u \<Longrightarrow> \<not> is_trail u"
  by (simp add: is_lead_def is_trail_def)

lemma well_formed_scalars:
  "well_formed s \<Longrightarrow>
     list_all scalar (scalar_values s) \<and> concat (map utf16_units (scalar_values s)) = s"
proof (induction s rule: scalar_values.induct)
  case 1
  show ?case by simp
next
  case (2 u)
  then show ?case by (simp add: unit_scalar_plain)
next
  case (3 u v rest)
  show ?case
  proof (cases "is_lead u")
    case True
    then have "is_trail v" and "well_formed rest" using 3(3) by simp_all
    then show ?thesis using True 3(1) by (simp add: pair_scalar)
  next
    case False
    then have "\<not> is_trail u" and "well_formed (v # rest)" using 3(3) by simp_all
    then show ?thesis using False 3(2) by (simp add: unit_scalar_plain)
  qed
qed

lemma strip_bom_scalar_values:
  assumes "well_formed s" and "\<not> starts_with_bom s"
  shows "strip_bom (scalar_values s) = scalar_values s"
proof (cases s rule: scalar_values.cases)
  case 1
  then show ?thesis by (simp add: strip_bom_def)
next
  case (2 u)
  then have "unat u \<noteq> 0xFEFF"
    using assms(2) by (auto simp: starts_with_bom_def word_unat_eq_iff)
  then show ?thesis using 2 assms(1) by (simp add: strip_bom_def unit_scalar_plain)
next
  case (3 u v rest)
  have u: "unat u \<noteq> 0xFEFF"
    using 3 assms(2) by (auto simp: starts_with_bom_def word_unat_eq_iff)
  show ?thesis
  proof (cases "is_lead u")
    case True
    then have "is_trail v" using 3 assms(1) by simp
    then show ?thesis using True 3 by (simp add: strip_bom_def pair_scalar(3))
  next
    case False
    then have "\<not> is_trail u" using 3 assms(1) by simp
    then show ?thesis using False 3 u by (simp add: strip_bom_def unit_scalar_plain)
  qed
qed

lemma well_formed_utf8_preserved:
  assumes "well_formed s" and "\<not> starts_with_bom s"
  shows "utf8_preserved s"
proof -
  have "utf8_decoder 0 0 0x80 0xBF (TextEncoder_encode s) = scalar_values s"
    unfolding TextEncoder_encode_def
    using well_formed_scalars [OF assms(1)] by (simp add: utf8_roundtrip_scalars)
  then show ?thesis
    using strip_bom_scalar_values [OF assms] well_formed_scalars [OF assms(1)]
    by (simp add: utf8_preserved_def TextDecoder_decode_def)
qed

section \<open>The example platform meets the requirements\<close>

lemma js_Nil: "js [] = []"
  by (simp add: js_def)

lemma js_Cons: "js (c # s) = of_nat (of_char c) # js s"
  by (simp add: js_def)

lemma length_js: "length (js s) = length s"
  by (simp add: js_def)

lemma length_base64_encode: "length (base64_encode bs) \<le> 2 * length bs + 4"
  by (induction bs rule: base64_encode.induct) simp_all

lemma ascii_b64_char: "unat (b64_char n) < 0x80"
  using b64_code_less [of n] by (simp add: unat_b64_char)

lemma ascii_base64_encode: "ascii (base64_encode bs)"
  by (induction bs rule: base64_encode.induct) (simp_all add: ascii_def ascii_b64_char)


lemma example_rsa_ok: "rsa_oaep_ok example_platform"
proof -
  have "example_rsa_encrypt n seed d \<noteq> None" if "length d \<le> 190" for n seed d
    using that by (simp add: example_rsa_encrypt_def)
  moreover have "example_rsa_decrypt n c = Some d" if "example_rsa_encrypt n seed d = Some c"
    for n seed d c
  proof -
    from that have "c = of_nat n # d"
      by (simp add: example_rsa_encrypt_def split: if_splits)
    then show ?thesis by (simp add: example_rsa_decrypt_def)
  qed
  ultimately show ?thesis
    by (simp add: rsa_oaep_ok_def example_platform_def)
qed

lemma example_aes_ok: "aes_gcm_ok example_platform"
  by (simp add: aes_gcm_ok_def example_platform_def example_aes_encrypt_def example_aes_decrypt_def)

lemma example_aes_binds_nonce: "aes_gcm_binds_nonce example_platform"
  by (simp add: aes_gcm_binds_nonce_def example_platform_def example_aes_encrypt_def
      example_aes_decrypt_def)

lemma example_stringify_JwkOct: "example_stringify (JwkOct k) = 75 # base64_encode k"
  by (simp add: example_stringify_def js_Cons js_Nil)

lemma example_parse_JwkOct:
  "example_parse (75 # rest) =
     (case base64ToArrayBuffer rest of Inl e \<Rightarrow> None | Inr k \<Rightarrow> Some (JwkOct k))"
  by (simp add: example_parse_def)

lemma example_jwk_text_ok: "jwk_text_ok example_platform"
proof -
  have parse: "example_parse (example_stringify (JwkOct k)) = Some (JwkOct k)" for k
    by (simp only: example_stringify_JwkOct example_parse_JwkOct base64ToArrayBuffer_encode
        sum.case)
  have fits: "ascii (example_stringify (JwkOct k)) \<and> length (example_stringify (JwkOct k)) \<le> 190"
    if "length k = 32" for k
  proof -
    have "length (base64_encode k) \<le> 68"
      using length_base64_encode [of k] that by simp
    moreover have "ascii (75 # base64_encode k)"
      by (simp add: ascii_Cons ascii_base64_encode)
    ultimately show ?thesis by (simp add: example_stringify_JwkOct)
  qed
  show ?thesis
    using parse fits by (simp add: jwk_text_ok_def example_platform_def)
qed

section \<open>Symmetric encryption\<close>

lemma length_getRandomValues: "length (getRandomValues rng n) = n"
  by (simp add: getRandomValues_def)

lemma encryptWithSymmetricKey_eq:
  "encryptWithSymmetricKey P rng m (AesGcmKey k) =
     Inr (base64_encode (aes_gcm_encrypt P k (getRandomValues rng 12) (TextEncoder_encode m)),
          base64_encode (getRandomValues rng 12))"
  by (simp add: encryptWithSymmetricKey_def arrayBufferToBase64_eq Let_def)

lemma decryptWithSymmetricKey_encoded:
  "decryptWithSymmetricKey P (base64_encode c) (base64_encode nonce) (AesGcmKey k) =
     (case aes_gcm_decrypt P k nonce c of
        None \<Rightarrow> Inl OperationError
      | Some d \<Rightarrow> Inr (TextDecoder_decode d))"
  by (simp add: decryptWithSymmetricKey_def base64ToArrayBuffer_encode)

lemma symmetricRoundTrip_eq:
  assumes "aes_gcm_ok P"
  shows "symmetricRoundTrip P rng m (AesGcmKey k) = Inr (TextDecoder_decode (TextEncoder_encode m))"
proof -
  have "aes_gcm_decrypt P k (getRandomValues rng 12)
          (aes_gcm_encrypt P k (getRandomValues rng 12) (TextEncoder_encode m))
        = Some (TextEncoder_encode m)"
    using assms by (simp add: aes_gcm_ok_def)
  then show ?thesis
    by (simp add: symmetricRoundTrip_def encryptWithSymmetricKey_eq decryptWithSymmetricKey_encoded)
qed

text \<open>
  Claim C2, as amended. For every well-formed plaintext \<open>m\<close> (no surrogate without its
  partner) that does not start with a byte order mark, and every key that
  \<^verbatim>\<open>generateSymmetricKey\<close> produces, decrypting the ciphertext and nonce of one symmetric
  encryption of \<open>m\<close> under the same key returns \<open>m\<close>. (The claim says this of every
  string; the counterexample below is a string that the encoder does not preserve.)
\<close>

theorem symmetric_round_trip:
  assumes "aes_gcm_ok P" and "well_formed m" and "\<not> starts_with_bom m"
  shows "symmetricRoundTrip P rng m (generateSymmetricKey keyRng) = Inr m"
  using well_formed_utf8_preserved [OF assms(2,3)] symmetricRoundTrip_eq [OF assms(1)]
  by (simp add: generateSymmetricKey_def utf8_preserved_def)

lemma hello_ascii: "ascii (js ''hello'')"
  by (simp add: ascii_def js_Cons js_Nil)

lemma hello_well_formed: "well_formed (js ''hello'')" "\<not> starts_with_bom (js ''hello'')"
  by (simp_all add: js_Cons js_Nil is_lead_def is_trail_def starts_with_bom_def)

theorem symmetric_round_trip_witness:
  "symmetricRoundTrip example_platform example_rng (js ''hello'') (generateSymmetricKey example_rng')
     = Inr (js ''hello'')"
  using symmetric_round_trip [OF example_aes_ok hello_well_formed] .

text \<open>
  The string of one unpaired surrogate, \<^verbatim>\<open>"\uD800"\<close>, is encoded as the three bytes of
  U+FFFD, so the round trip returns the one code unit U+FFFD and not the plaintext.
\<close>

theorem symmetric_round_trip_counterexample:
  "symmetricRoundTrip example_platform example_rng [0xD800] (generateSymmetricKey example_rng')
     = Inr [0xFFFD] \<and>
   symmetricRoundTrip example_platform example_rng [0xD800] (generateSymmetricKey example_rng')
     \<noteq> Inr [0xD800]"
proof -
  have "TextDecoder_decode (TextEncoder_encode [0xD800]) = [0xFFFD]"
    by (simp add: utf8_eval)
  then show ?thesis
    using symmetricRoundTrip_eq [OF example_aes_ok, of example_rng "[0xD800]"]
    by (simp add: generateSymmetricKey_def)
qed

text \<open>A leading byte order mark does not come back either: the decoder drops it.\<close>

lemma byte_order_mark_dropped:
  "symmetricRoundTrip example_platform example_rng (0xFEFF # js ''hi'') (generateSymmetricKey example_rng')
     = Inr (js ''hi'')"
proof -
  have "TextDecoder_decode (TextEncoder_encode (0xFEFF # js ''hi'')) = js ''hi''"
    by (simp add: utf8_eval js_Cons js_Nil)
  then show ?thesis
    using symmetricRoundTrip_eq [OF example_aes_ok, of example_rng "0xFEFF # js ''hi''"]
    by (simp add: generateSymmetricKey_def)
qed





section \<open>Key wrapping\<close>

lemma wrapRoundTrip_eq:
  assumes "rsa_oaep_ok P" and "length (TextEncoder_encode s) \<le> 190"
  shows "\<exists>c. rsa_oaep_encrypt P n seed (TextEncoder_encode s) = Some c \<and>
             encryptWithPublicKey P seed s (RsaPublicKey n) = Inr (base64_encode c) \<and>
             rsa_oaep_decrypt P n c = Some (TextEncoder_encode s) \<and>
             decryptWithPrivateKey P (base64_encode c) (RsaPrivateKey n)
               = Inr (TextDecoder_decode (TextEncoder_encode s))"
proof -
  have "rsa_oaep_encrypt P n seed (TextEncoder_encode s) \<noteq> None"
    using assms by (simp add: rsa_oaep_ok_def)
  then obtain c where c: "rsa_oaep_encrypt P n seed (TextEncoder_encode s) = Some c"
    by blast
  then have d: "rsa_oaep_decrypt P n c = Some (TextEncoder_encode s)"
    using assms(1) by (simp add: rsa_oaep_ok_def)
  show ?thesis
    using c d
    by (simp add: encryptWithPublicKey_def decryptWithPrivateKey_def arrayBufferToBase64_eq
        base64ToArrayBuffer_encode)
qed

lemma length_generated_key: "generateSymmetricKey rng = AesGcmKey (getRandomValues rng 32)"
  by (simp add: generateSymmetricKey_def)

lemma exported_key_text:
  assumes "jwk_text_ok P"
  shows "ascii (JSON_stringify P (exportKey (generateSymmetricKey rng)))"
    and "length (TextEncoder_encode (JSON_stringify P (exportKey (generateSymmetricKey rng)))) \<le> 190"
    and "utf8_preserved (JSON_stringify P (exportKey (generateSymmetricKey rng)))"
    and "JSON_parse P (JSON_stringify P (exportKey (generateSymmetricKey rng)))
           = Some (JwkOct (getRandomValues rng 32))"
proof -
  let ?k = "getRandomValues rng 32"
  have e: "exportKey (generateSymmetricKey rng) = JwkOct ?k"
    by (simp add: exportKey_def generateSymmetricKey_def)
  have "length ?k = 32" by (rule length_getRandomValues)
  then have a: "ascii (JSON_stringify P (JwkOct ?k))" and l: "length (JSON_stringify P (JwkOct ?k)) \<le> 190"
    using assms by (simp_all add: jwk_text_ok_def)
  show "ascii (JSON_stringify P (exportKey (generateSymmetricKey rng)))"
    using a by (simp only: e)
  show "length (TextEncoder_encode (JSON_stringify P (exportKey (generateSymmetricKey rng)))) \<le> 190"
    using l by (simp only: e length_TextEncoder_encode_ascii [OF a])
  show "utf8_preserved (JSON_stringify P (exportKey (generateSymmetricKey rng)))"
    using ascii_utf8_preserved [OF a] by (simp only: e)
  show "JSON_parse P (JSON_stringify P (exportKey (generateSymmetricKey rng))) = Some (JwkOct ?k)"
    using assms by (simp add: e jwk_text_ok_def)
qed

text \<open>
  Claim C4. For every key pair that \<^verbatim>\<open>generateKeyPair\<close> produces and every exported
  symmetric key string (the JSON text of the exported key of \<^verbatim>\<open>generateSymmetricKey\<close>,
  which is within the payload limit of RSA-OAEP), unwrapping with the private key what was
  wrapped under the public key returns the string.
\<close>

theorem key_wrap_round_trip:
  assumes "rsa_oaep_ok P" and "jwk_text_ok P"
  shows "wrapRoundTrip P seed (JSON_stringify P (exportKey (generateSymmetricKey rng)))
           (fst (generateKeyPair n)) (snd (generateKeyPair n))
         = Inr (JSON_stringify P (exportKey (generateSymmetricKey rng)))"
proof -
  let ?s = "JSON_stringify P (exportKey (generateSymmetricKey rng))"
  obtain c where "encryptWithPublicKey P seed ?s (RsaPublicKey n) = Inr (base64_encode c)"
    and "decryptWithPrivateKey P (base64_encode c) (RsaPrivateKey n)
           = Inr (TextDecoder_decode (TextEncoder_encode ?s))"
    using wrapRoundTrip_eq [OF assms(1) exported_key_text(2) [OF assms(2)]] by blast
  moreover have "TextDecoder_decode (TextEncoder_encode ?s) = ?s"
    using exported_key_text(3) [OF assms(2)] by (simp add: utf8_preserved_def)
  ultimately show ?thesis
    by (simp add: wrapRoundTrip_def generateKeyPair_def)
qed

theorem key_wrap_round_trip_witness:
  "wrapRoundTrip example_platform example_rng
     (JSON_stringify example_platform (exportKey (generateSymmetricKey example_rng')))
     (fst (generateKeyPair 7)) (snd (generateKeyPair 7))
   = Inr (JSON_stringify example_platform (exportKey (generateSymmetricKey example_rng')))"
  using key_wrap_round_trip [OF example_rsa_ok example_jwk_text_ok] .

section \<open>The Channel Key Manager\<close>

lemma truthy_Some: "truthy (Some s) \<longleftrightarrow> s \<noteq> []"
  by (simp add: truthy_def)

lemma ToString_Some: "ToString (Some s) = s"
  by (simp add: ToString_def)

lemma keyFileName_Some: "keyFileName (Some u) = js ''key-'' @ user_id u @ js ''.json''"
  by (simp add: keyFileName_def ToString_def)

lemma generateChannelKey_try_eq:
  assumes "rsa_oaep_ok P" and "jwk_text_ok P"
    and "user auth = Some u" and "getPrivateKey auth = Some privateKeyJwk"
    and "publicKey u = Some pk" and "pk \<noteq> []" and "JSON_parse P pk = Some (JwkRsaPublic n)"
    and "isInitialized (storage s)"
  shows "\<exists>c. rsa_oaep_encrypt P n seed
                (TextEncoder_encode (JSON_stringify P (exportKey (generateSymmetricKey rng)))) = Some c \<and>
             generateChannelKey_try P auth rng seed now s cid =
               Inr (s\<lparr>channelKeysCache := (channelKeysCache s)(cid \<mapsto> generateSymmetricKey rng),
                      storage := (storage s)\<lparr>objects :=
                        AList.update (encryptionPath cid, js ''key-'' @ user_id u @ js ''.json'')
                          (JSON_stringify P (KeyReferenceJson
                             (keyReference cid (user_id u) (base64_encode c) now)))
                          (objects (storage s))\<rparr>\<rparr>)"
proof -
  let ?s = "JSON_stringify P (exportKey (generateSymmetricKey rng))"
  obtain c where c: "rsa_oaep_encrypt P n seed (TextEncoder_encode ?s) = Some c"
    and w: "encryptWithPublicKey P seed ?s (RsaPublicKey n) = Inr (base64_encode c)"
    using wrapRoundTrip_eq [OF assms(1) exported_key_text(2) [OF assms(2)]] by blast
  have "generateChannelKey_try P auth rng seed now s cid =
               Inr (s\<lparr>channelKeysCache := (channelKeysCache s)(cid \<mapsto> generateSymmetricKey rng),
                      storage := (storage s)\<lparr>objects :=
                        AList.update (encryptionPath cid, js ''key-'' @ user_id u @ js ''.json'')
                          (JSON_stringify P (KeyReferenceJson
                             (keyReference cid (user_id u) (base64_encode c) now)))
                          (objects (storage s))\<rparr>\<rparr>)"
    unfolding generateChannelKey_try_def
    using assms(3-8) w
    by (simp add: Let_def truthy_Some ToString_Some importKey_def storeData_def keyFileName_Some)
  with c show ?thesis by blast
qed

text \<open>
  Claim C6, as amended. \<^verbatim>\<open>generateChannelKey(channelId)\<close>, called by an authenticated
  user whose public key parses and imports and whose private key is present, while the
  storage adapter is initialised, returns \<^verbatim>\<open>true\<close>. It draws a fresh 256-bit key and
  encrypts the JSON Web Key text of that key with RSA-OAEP under the caller's public key, so
  that the private half of the pair decrypts the result to that text, which parses back to
  the key. It persists under \<^verbatim>\<open>encryption/<channelId>\<close> and \<^verbatim>\<open>key-<userId>.json\<close> the
  Key Record whose \<^verbatim>\<open>encryptedKey\<close> is the base64 text of that ciphertext, with
  \<^verbatim>\<open>associatedId = channelId\<close> and \<^verbatim>\<open>ownerUserId\<close> the caller's id, and it puts the
  new key in the cache entry of the channel; nothing else of the state changes.
\<close>

theorem generateChannelKey_creates_key_record:
  assumes "rsa_oaep_ok P" and "jwk_text_ok P"
    and "user auth = Some u" and "getPrivateKey auth = Some privateKeyJwk"
    and "publicKey u = Some pk" and "pk \<noteq> []" and "JSON_parse P pk = Some (JwkRsaPublic n)"
    and "isInitialized (storage s)"
  shows "\<exists>c.
           length (getRandomValues rng 32) = 32 \<and>
           rsa_oaep_encrypt P n seed
             (TextEncoder_encode (JSON_stringify P (JwkOct (getRandomValues rng 32)))) = Some c \<and>
           rsa_oaep_decrypt P n c
             = Some (TextEncoder_encode (JSON_stringify P (JwkOct (getRandomValues rng 32)))) \<and>
           decryptWithPrivateKey P (base64_encode c) (RsaPrivateKey n)
             = Inr (JSON_stringify P (JwkOct (getRandomValues rng 32))) \<and>
           JSON_parse P (JSON_stringify P (JwkOct (getRandomValues rng 32)))
             = Some (JwkOct (getRandomValues rng 32)) \<and>
           generateChannelKey P auth rng seed now s cid =
             (True,
              s\<lparr>channelKeysCache := (channelKeysCache s)(cid \<mapsto> AesGcmKey (getRandomValues rng 32)),
                storage := (storage s)\<lparr>objects :=
                  AList.update (js ''encryption/'' @ cid, js ''key-'' @ user_id u @ js ''.json'')
                    (JSON_stringify P (KeyReferenceJson
                       \<lparr>reference_id = js ''key-'' @ cid @ js ''-'' @ user_id u,
                        ownerUserId = user_id u,
                        encryptedKey = base64_encode c,
                        keyType = KeyType_channel,
                        associatedId = cid,
                        createdAt = now\<rparr>))
                    (objects (storage s))\<rparr>\<rparr>) \<and>
           retrieveData (storage (snd (generateChannelKey P auth rng seed now s cid)))
               (js ''key-'' @ user_id u @ js ''.json'') (js ''encryption/'' @ cid)
             = Inr (JSON_stringify P (KeyReferenceJson
                 \<lparr>reference_id = js ''key-'' @ cid @ js ''-'' @ user_id u,
                  ownerUserId = user_id u,
                  encryptedKey = base64_encode c,
                  keyType = KeyType_channel,
                  associatedId = cid,
                  createdAt = now\<rparr>)) \<and>
           channelKeysCache (snd (generateChannelKey P auth rng seed now s cid)) cid
             = Some (AesGcmKey (getRandomValues rng 32))"
proof -
  let ?k = "getRandomValues rng 32"
  let ?s = "JSON_stringify P (JwkOct ?k)"
  have e: "JSON_stringify P (exportKey (generateSymmetricKey rng)) = ?s"
    by (simp add: exportKey_def generateSymmetricKey_def)
  obtain c where c: "rsa_oaep_encrypt P n seed (TextEncoder_encode ?s) = Some c"
    and t: "generateChannelKey_try P auth rng seed now s cid =
               Inr (s\<lparr>channelKeysCache := (channelKeysCache s)(cid \<mapsto> generateSymmetricKey rng),
                      storage := (storage s)\<lparr>objects :=
                        AList.update (encryptionPath cid, js ''key-'' @ user_id u @ js ''.json'')
                          (JSON_stringify P (KeyReferenceJson
                             (keyReference cid (user_id u) (base64_encode c) now)))
                          (objects (storage s))\<rparr>\<rparr>)"
    using generateChannelKey_try_eq [OF assms, of seed rng now cid] by (auto simp only: e)
  have d: "rsa_oaep_decrypt P n c = Some (TextEncoder_encode ?s)"
    using assms(1) c by (simp add: rsa_oaep_ok_def)
  have p: "TextDecoder_decode (TextEncoder_encode ?s) = ?s"
    using exported_key_text(3) [OF assms(2), of rng] by (simp only: e utf8_preserved_def)
  have u: "decryptWithPrivateKey P (base64_encode c) (RsaPrivateKey n) = Inr ?s"
    using d p by (simp add: decryptWithPrivateKey_def base64ToArrayBuffer_encode)
  have j: "JSON_parse P ?s = Some (JwkOct ?k)"
    using assms(2) by (simp add: jwk_text_ok_def)
  show ?thesis
    using assms(8) c d u j
    by (simp add: generateChannelKey_def t retrieveData_def update_conv' encryptionPath_def
        keyReference_def length_getRandomValues generateSymmetricKey_def)
qed

lemma example_public_key_parses:
  "publicKey example_userA = Some (example_stringify (JwkRsaPublic 1))"
  "example_stringify (JwkRsaPublic 1) \<noteq> []"
  "JSON_parse example_platform (example_stringify (JwkRsaPublic 1)) = Some (JwkRsaPublic 1)"
  by (simp_all add: example_userA_def example_stringify_def example_platform_def example_parse_def
      js_Cons js_Nil)

theorem generateChannelKey_creates_key_record_witness:
  "\<exists>c.
     length (getRandomValues example_rng' 32) = 32 \<and>
     rsa_oaep_encrypt example_platform 1 example_rng
       (TextEncoder_encode (JSON_stringify example_platform (JwkOct (getRandomValues example_rng' 32))))
       = Some c \<and>
     rsa_oaep_decrypt example_platform 1 c
       = Some (TextEncoder_encode
                 (JSON_stringify example_platform (JwkOct (getRandomValues example_rng' 32)))) \<and>
     decryptWithPrivateKey example_platform (base64_encode c) (RsaPrivateKey 1)
       = Inr (JSON_stringify example_platform (JwkOct (getRandomValues example_rng' 32))) \<and>
     JSON_parse example_platform
         (JSON_stringify example_platform (JwkOct (getRandomValues example_rng' 32)))
       = Some (JwkOct (getRandomValues example_rng' 32)) \<and>
     generateChannelKey example_platform example_authA example_rng' example_rng 0 example_state
         example_channel =
       (True,
        example_state\<lparr>channelKeysCache :=
            (channelKeysCache example_state)
              (example_channel \<mapsto> AesGcmKey (getRandomValues example_rng' 32)),
          storage := (storage example_state)\<lparr>objects :=
            AList.update
              (js ''encryption/'' @ example_channel, js ''key-'' @ user_id example_userA @ js ''.json'')
              (JSON_stringify example_platform (KeyReferenceJson
                 \<lparr>reference_id = js ''key-'' @ example_channel @ js ''-'' @ user_id example_userA,
                  ownerUserId = user_id example_userA,
                  encryptedKey = base64_encode c,
                  keyType = KeyType_channel,
                  associatedId = example_channel,
                  createdAt = 0\<rparr>))
              (objects (storage example_state))\<rparr>\<rparr>) \<and>
     retrieveData
         (storage (snd (generateChannelKey example_platform example_authA example_rng' example_rng 0
                          example_state example_channel)))
         (js ''key-'' @ user_id example_userA @ js ''.json'') (js ''encryption/'' @ example_channel)
       = Inr (JSON_stringify example_platform (KeyReferenceJson
           \<lparr>reference_id = js ''key-'' @ example_channel @ js ''-'' @ user_id example_userA,
            ownerUserId = user_id example_userA,
            encryptedKey = base64_encode c,
            keyType = KeyType_channel,
            associatedId = example_channel,
            createdAt = 0\<rparr>)) \<and>
     channelKeysCache
         (snd (generateChannelKey example_platform example_authA example_rng' example_rng 0
                 example_state example_channel)) example_channel
       = Some (AesGcmKey (getRandomValues example_rng' 32))"
proof -
  have "user example_authA = Some example_userA" "getPrivateKey example_authA = Some (JwkRsaPrivate 1)"
    "isInitialized (storage example_state)"
    by (simp_all add: example_authA_def example_state_def)
  then show ?thesis
    using generateChannelKey_creates_key_record [OF example_rsa_ok example_jwk_text_ok _ _
        example_public_key_parses, of example_authA "JwkRsaPrivate 1" example_state
        example_rng' example_rng 0 example_channel]
    by simp
qed

text \<open>
  While the storage adapter is not initialised, \<^verbatim>\<open>storeData\<close> throws, and the same call
  by the same user returns \<^verbatim>\<open>false\<close>: no Key Record is persisted and the cache is not
  populated.
\<close>

theorem generateChannelKey_creates_key_record_counterexample:
  "user example_authA = Some example_userA \<and>
   getPrivateKey example_authA = Some (JwkRsaPrivate 1) \<and>
   JSON_parse example_platform (ToString (publicKey example_userA)) = Some (JwkRsaPublic 1) \<and>
   \<not> isInitialized (storage example_state_unavailable) \<and>
   generateChannelKey example_platform example_authA example_rng' example_rng 0
     example_state_unavailable example_channel = (False, example_state_unavailable) \<and>
   objects (storage example_state_unavailable) = [] \<and>
   channelKeysCache example_state_unavailable example_channel = None"
proof -
  obtain c where "encryptWithPublicKey example_platform example_rng
      (JSON_stringify example_platform (exportKey (generateSymmetricKey example_rng')))
      (RsaPublicKey 1) = Inr (base64_encode c)"
    using wrapRoundTrip_eq [OF example_rsa_ok exported_key_text(2) [OF example_jwk_text_ok]] by blast
  then have "generateChannelKey_try example_platform example_authA example_rng' example_rng 0
     example_state_unavailable example_channel = Inl (Error ''Storage adapter not initialized'')"
    using example_public_key_parses
    by (simp add: generateChannelKey_try_def Let_def example_authA_def truthy_Some ToString_Some
        importKey_def storeData_def example_state_unavailable_def)
  then show ?thesis
    using example_public_key_parses
    by (simp add: generateChannelKey_def example_authA_def ToString_Some example_state_unavailable_def)
qed

lemma getChannelKey_cached:
  "channelKeysCache s cid = Some key \<Longrightarrow> getChannelKey P auth s cid = (Some key, s)"
  by (simp add: getChannelKey_def)

lemma getChannelKey_failed:
  "channelKeysCache s cid = None \<Longrightarrow> unwrapChannelKey P auth (storage s) cid = Inl e \<Longrightarrow>
   getChannelKey P auth s cid = (None, s)"
  by (simp add: getChannelKey_def)

lemma getChannelKey_unwrapped:
  "channelKeysCache s cid = None \<Longrightarrow> unwrapChannelKey P auth (storage s) cid = Inr key \<Longrightarrow>
   getChannelKey P auth s cid = (Some key, s\<lparr>channelKeysCache := (channelKeysCache s)(cid \<mapsto> key)\<rparr>)"
  by (simp add: getChannelKey_def)

lemma getChannelKey_storage: "storage (snd (getChannelKey P auth s cid)) = storage s"
  by (simp add: getChannelKey_def split: option.splits sum.splits)

lemma getChannelKey_again:
  "getChannelKey P auth (snd (getChannelKey P auth s cid)) cid
     = (fst (getChannelKey P auth s cid), snd (getChannelKey P auth s cid))"
  by (simp add: getChannelKey_def split: option.splits sum.splits)

lemma unwrapChannelKey_no_private_key:
  "getPrivateKey auth = None \<Longrightarrow>
   unwrapChannelKey P auth st cid = Inl (Error ''Private key not available'')"
  by (simp add: unwrapChannelKey_def)

lemma unwrapChannelKey_no_record:
  assumes "retrieveData st (keyFileName (user auth)) (encryptionPath cid) = Inl e"
  shows "\<exists>e'. unwrapChannelKey P auth st cid = Inl e'"
  using assms by (simp add: unwrapChannelKey_def split: option.splits sum.splits)

lemma unwrapChannelKey_not_unwrapped:
  assumes "getPrivateKey auth = Some privateKeyJwk"
    and "importKey privateKeyJwk True = Inr privateKey"
    and "retrieveData st (keyFileName (user auth)) (encryptionPath cid) = Inr data"
    and "JSON_parse P data = Some reference"
    and "decryptWithPrivateKey P (ToString (encryptedKey_of reference)) privateKey = Inl e"
  shows "unwrapChannelKey P auth st cid = Inl e"
  using assms by (simp add: unwrapChannelKey_def)

lemma unwrap_failure_collapses:
  assumes "channelKeysCache s cid = None" and "unwrapChannelKey P auth (storage s) cid = Inl e"
  shows "getChannelKey P auth s cid = (None, s) \<and>
         encryptMessage P auth rng s message cid = (Inl (Error ''Channel key not available''), s) \<and>
         decryptMessage P auth s ciphertext iv64 cid = (Inl (Error ''Channel key not available''), s)"
  using getChannelKey_failed [OF assms]
  by (simp add: encryptMessage_def decryptMessage_def)

text \<open>
  Claim C7, as amended. When the cache misses and the private key cannot be loaded, or the
  Key Record of the current identity cannot be retrieved, or the retrieved record does not
  unwrap, \<^verbatim>\<open>getChannelKey\<close> returns \<^verbatim>\<open>null\<close> and leaves the state as it was, and
  \<^verbatim>\<open>encryptMessage\<close> and \<^verbatim>\<open>decryptMessage\<close> throw the one error
  \<^verbatim>\<open>Error('Channel key not available')\<close> in all three cases. (The source has no typed
  errors \<^verbatim>\<open>KeyNotFound\<close>, \<^verbatim>\<open>IdentityUnavailable\<close> or \<^verbatim>\<open>DecryptionFailed\<close>.)
\<close>

theorem key_failures_collapse:
  assumes "channelKeysCache s cid = None"
    and "getPrivateKey auth = None \<or>
         (\<exists>e. retrieveData (storage s) (keyFileName (user auth)) (encryptionPath cid) = Inl e) \<or>
         (\<exists>privateKeyJwk privateKey data reference e.
            getPrivateKey auth = Some privateKeyJwk \<and>
            importKey privateKeyJwk True = Inr privateKey \<and>
            retrieveData (storage s) (keyFileName (user auth)) (encryptionPath cid) = Inr data \<and>
            JSON_parse P data = Some reference \<and>
            decryptWithPrivateKey P (ToString (encryptedKey_of reference)) privateKey = Inl e)"
  shows "getChannelKey P auth s cid = (None, s) \<and>
         encryptMessage P auth rng s message cid = (Inl (Error ''Channel key not available''), s) \<and>
         decryptMessage P auth s ciphertext iv64 cid = (Inl (Error ''Channel key not available''), s)"
proof -
  have "\<exists>e. unwrapChannelKey P auth (storage s) cid = Inl e"
    using assms(2) unwrapChannelKey_no_private_key unwrapChannelKey_no_record
      unwrapChannelKey_not_unwrapped by blast
  then show ?thesis
    using unwrap_failure_collapses [OF assms(1)] by blast
qed

lemma example_empty_cache:
  "channelKeysCache example_state cid = None" "channelKeysCache example_state_corrupt cid = None"
  by (simp_all add: example_state_def example_state_corrupt_def)

theorem key_failures_collapse_witness:
  "getChannelKey example_platform example_auth_without_key example_state example_channel
     = (None, example_state) \<and>
   encryptMessage example_platform example_auth_without_key example_rng example_state
       (js ''hello'') example_channel
     = (Inl (Error ''Channel key not available''), example_state) \<and>
   decryptMessage example_platform example_auth_without_key example_state (js ''AAAA'')
       (js ''AAAA'') example_channel
     = (Inl (Error ''Channel key not available''), example_state)"
proof -
  have "getPrivateKey example_auth_without_key = None"
    by (simp add: example_auth_without_key_def)
  then show ?thesis
    using key_failures_collapse [OF example_empty_cache(1), of example_auth_without_key]
    by blast
qed

lemma example_no_record:
  "unwrapChannelKey example_platform example_authA (storage example_state) example_channel
     = Inl (StorageError ''Failed to retrieve file'')"
  by (simp add: unwrapChannelKey_def example_authA_def importKey_def retrieveData_def
      example_state_def)

lemma example_AAAA: "base64ToArrayBuffer (js ''AAAA'') = Inr [0, 0, 0]"
  by code_simp

lemma example_record_not_unwrapped:
  "unwrapChannelKey example_platform example_authA (storage example_state_corrupt) example_channel
     = Inl OperationError"
proof -
  have r: "retrieveData (storage example_state_corrupt) (keyFileName (user example_authA))
             (encryptionPath example_channel)
           = Inr (example_stringify (KeyReferenceJson
                    (keyReference example_channel (js ''u1'') (js ''AAAA'') 0)))"
    by (simp add: retrieveData_def example_state_corrupt_def example_authA_def)
  have p: "JSON_parse example_platform (example_stringify (KeyReferenceJson
             (keyReference example_channel (js ''u1'') (js ''AAAA'') 0)))
           = Some (KeyReferenceJson (keyReference [] [] (js ''AAAA'') 0))"
    by (simp add: example_platform_def example_stringify_def example_parse_def keyReference_def
        js_Cons js_Nil)
  have d: "decryptWithPrivateKey example_platform (js ''AAAA'') (RsaPrivateKey 1) = Inl OperationError"
    by (simp add: decryptWithPrivateKey_def example_AAAA example_platform_def
        example_rsa_decrypt_def)
  have g: "getPrivateKey example_authA = Some (JwkRsaPrivate 1)"
    by (simp add: example_authA_def)
  have i: "importKey (JwkRsaPrivate 1) True = Inr (RsaPrivateKey 1)"
    by (simp add: importKey_def)
  have d': "decryptWithPrivateKey example_platform
              (ToString (encryptedKey_of (KeyReferenceJson (keyReference [] [] (js ''AAAA'') 0))))
              (RsaPrivateKey 1) = Inl OperationError"
    using d by (simp add: encryptedKey_of_def keyReference_def ToString_def)
  show ?thesis
    by (rule unwrapChannelKey_not_unwrapped [OF g i r p d'])
qed

text \<open>
  A user without Key Record, a user without private key, and a user whose Key Record does
  not unwrap get the same result from \<^verbatim>\<open>getChannelKey\<close> and the same error from
  \<^verbatim>\<open>encryptMessage\<close>: the caller cannot tell the three failures apart.
\<close>

theorem key_failures_collapse_counterexample:
  "fst (encryptMessage example_platform example_authA example_rng example_state
          (js ''hello'') example_channel)
     = Inl (Error ''Channel key not available'') \<and>
   fst (encryptMessage example_platform example_auth_without_key example_rng example_state
          (js ''hello'') example_channel)
     = Inl (Error ''Channel key not available'') \<and>
   fst (encryptMessage example_platform example_authA example_rng example_state_corrupt
          (js ''hello'') example_channel)
     = Inl (Error ''Channel key not available'') \<and>
   fst (getChannelKey example_platform example_authA example_state example_channel) = None \<and>
   fst (getChannelKey example_platform example_auth_without_key example_state example_channel) = None \<and>
   fst (getChannelKey example_platform example_authA example_state_corrupt example_channel) = None"
proof -
  have "unwrapChannelKey example_platform example_auth_without_key (storage example_state)
          example_channel = Inl (Error ''Private key not available'')"
    by (rule unwrapChannelKey_no_private_key) (simp add: example_auth_without_key_def)
  then show ?thesis
    using unwrap_failure_collapses [OF example_empty_cache(1) example_no_record]
      unwrap_failure_collapses [OF example_empty_cache(1), of example_platform
        example_auth_without_key example_channel]
      unwrap_failure_collapses [OF example_empty_cache(2) example_record_not_unwrapped]
    by simp
qed

lemma hasChannelKey_eq:
  "hasChannelKey P auth s cid
     = (fst (getChannelKey P auth s cid) \<noteq> None, snd (getChannelKey P auth s cid))"
  by (simp add: hasChannelKey_def getChannelKey_def split: option.splits sum.splits)

lemma retrieveData_absent:
  "map_of (objects st) (path, key) = None \<Longrightarrow> \<exists>e. retrieveData st key path = Inl e"
  by (simp add: retrieveData_def)

text \<open>
  Claim C8, as amended. \<^verbatim>\<open>hasChannelKey\<close> returns a boolean and never an error; it returns
  \<^verbatim>\<open>true\<close> exactly when \<^verbatim>\<open>getChannelKey\<close> returns a key in the same state, and leaves
  the state that \<^verbatim>\<open>getChannelKey\<close> leaves. For a user with no Key Record for the channel
  and no cached key for it in this process, \<^verbatim>\<open>getChannelKey\<close> returns \<^verbatim>\<open>null\<close> and
  \<^verbatim>\<open>hasChannelKey\<close> returns \<^verbatim>\<open>false\<close>.
\<close>

theorem hasChannelKey_probe:
  "fst (hasChannelKey P auth s cid) = (fst (getChannelKey P auth s cid) \<noteq> None) \<and>
   snd (hasChannelKey P auth s cid) = snd (getChannelKey P auth s cid) \<and>
   (channelKeysCache s cid = None \<and>
    map_of (objects (storage s)) (encryptionPath cid, keyFileName (user auth)) = None \<longrightarrow>
      getChannelKey P auth s cid = (None, s) \<and> hasChannelKey P auth s cid = (False, s))"
proof -
  have "getChannelKey P auth s cid = (None, s)"
    if miss: "channelKeysCache s cid = None"
      and absent: "map_of (objects (storage s)) (encryptionPath cid, keyFileName (user auth)) = None"
  proof -
    obtain e where "unwrapChannelKey P auth (storage s) cid = Inl e"
      using unwrapChannelKey_no_record retrieveData_absent [OF absent] by blast
    then show ?thesis using miss getChannelKey_failed by blast
  qed
  then show ?thesis by (simp add: hasChannelKey_eq)
qed

theorem hasChannelKey_probe_witness:
  "fst (hasChannelKey example_platform example_authA example_state example_channel)
     = (fst (getChannelKey example_platform example_authA example_state example_channel) \<noteq> None) \<and>
   snd (hasChannelKey example_platform example_authA example_state example_channel)
     = snd (getChannelKey example_platform example_authA example_state example_channel) \<and>
   channelKeysCache example_state example_channel = None \<and>
   map_of (objects (storage example_state))
     (encryptionPath example_channel, keyFileName (user example_authA)) = None \<and>
   getChannelKey example_platform example_authA example_state example_channel = (None, example_state) \<and>
   hasChannelKey example_platform example_authA example_state example_channel = (False, example_state)"
proof -
  have "channelKeysCache example_state example_channel = None"
    "map_of (objects (storage example_state))
       (encryptionPath example_channel, keyFileName (user example_authA)) = None"
    by (simp_all add: example_state_def)
  then show ?thesis
    using hasChannelKey_probe [of example_platform example_authA example_state example_channel]
    by simp
qed

lemma example_state_created_eq:
  "\<exists>data. example_state_created =
     \<lparr>channelKeysCache = [example_channel \<mapsto> generateSymmetricKey example_rng'],
      storage = \<lparr>isInitialized = True,
                 objects = [((encryptionPath example_channel, js ''key-'' @ js ''u1'' @ js ''.json''),
                             data)]\<rparr>\<rparr>"
proof -
  have "user example_authA = Some example_userA" "getPrivateKey example_authA = Some (JwkRsaPrivate 1)"
    "isInitialized (storage example_state)"
    by (simp_all add: example_authA_def example_state_def)
  then obtain c where "generateChannelKey_try example_platform example_authA example_rng' example_rng 0
       example_state example_channel =
     Inr (example_state\<lparr>channelKeysCache :=
              (channelKeysCache example_state)(example_channel \<mapsto> generateSymmetricKey example_rng'),
            storage := (storage example_state)\<lparr>objects :=
              AList.update (encryptionPath example_channel, js ''key-'' @ user_id example_userA @ js ''.json'')
                (JSON_stringify example_platform (KeyReferenceJson
                   (keyReference example_channel (user_id example_userA) (base64_encode c) 0)))
                (objects (storage example_state))\<rparr>\<rparr>)"
    using generateChannelKey_try_eq [OF example_rsa_ok example_jwk_text_ok _ _
        example_public_key_parses, of example_authA "JwkRsaPrivate 1" example_state]
    by blast
  then show ?thesis
    by (simp add: example_state_created_def generateChannelKey_def example_state_def
        example_userA_def)
qed

text \<open>
  The cache belongs to the process, not to the user. After the first user has created the
  channel in this process, the second user, who has no Key Record for the channel, gets
  the key from \<^verbatim>\<open>getChannelKey\<close> and \<^verbatim>\<open>true\<close> from \<^verbatim>\<open>hasChannelKey\<close>.
\<close>

theorem hasChannelKey_probe_counterexample:
  "map_of (objects (storage example_state_created))
     (encryptionPath example_channel, keyFileName (user example_authB)) = None \<and>
   fst (getChannelKey example_platform example_authB example_state_created example_channel)
     = Some (generateSymmetricKey example_rng') \<and>
   fst (hasChannelKey example_platform example_authB example_state_created example_channel) = True"
proof -
  obtain data where s: "example_state_created =
     \<lparr>channelKeysCache = [example_channel \<mapsto> generateSymmetricKey example_rng'],
      storage = \<lparr>isInitialized = True,
                 objects = [((encryptionPath example_channel, js ''key-'' @ js ''u1'' @ js ''.json''),
                             data)]\<rparr>\<rparr>"
    using example_state_created_eq by blast
  have k: "keyFileName (user example_authB) \<noteq> js ''key-'' @ js ''u1'' @ js ''.json''"
    by (simp add: keyFileName_Some example_authB_def example_userB_def js_Cons js_Nil)
  have c: "channelKeysCache example_state_created example_channel
             = Some (generateSymmetricKey example_rng')"
    by (simp add: s)
  show ?thesis
    using k getChannelKey_cached [OF c] by (simp add: hasChannelKey_eq) (simp add: s)
qed

section \<open>What the Channel Key Manager writes to the store\<close>

lemma list_all_update:
  "list_all Q al \<Longrightarrow> Q (k, v) \<Longrightarrow> list_all Q (AList.update k v al)"
  by (induction al) auto

lemma storeData_objects:
  "storeData st key data path = Inr st' \<Longrightarrow>
     st' = st\<lparr>objects := AList.update (path, key) data (objects st)\<rparr>"
  by (simp add: storeData_def split: if_splits)

lemma generateChannelKey_try_writes:
  assumes "rsa_oaep_ok P" and "generateChannelKey_try P auth rng seed now s cid = Inr s'"
  shows "\<exists>entry. writesKeyRecord P (GenerateChannelKey auth rng seed now cid) entry \<and>
           storage s' = (storage s)\<lparr>objects := AList.update (fst entry) (snd entry) (objects (storage s))\<rparr>"
proof -
  let ?text = "JSON_stringify P (JwkOct (getRandomValues rng 32))"
  from assms(2) obtain u pk n wrapped st where
    u: "user auth = Some u" and pk: "publicKey u = Some pk"
    and p: "JSON_parse P pk = Some (JwkRsaPublic n)"
    and w: "encryptWithPublicKey P seed ?text (RsaPublicKey n) = Inr wrapped"
    and st: "storeData (storage s) (keyFileName (Some u))
               (JSON_stringify P (KeyReferenceJson (keyReference cid (user_id u) wrapped now)))
               (encryptionPath cid) = Inr st"
    and s': "storage s' = st"
    by (auto simp: generateChannelKey_try_def Let_def generateSymmetricKey_def exportKey_def
        importKey_def truthy_def ToString_def
        split: option.splits sum.splits if_splits json.splits)
  obtain c where c: "rsa_oaep_encrypt P n seed (TextEncoder_encode ?text) = Some c"
    and wc: "wrapped = base64_encode c"
    using w by (auto simp: encryptWithPublicKey_def arrayBufferToBase64_eq split: option.splits)
  have d: "rsa_oaep_decrypt P n c = Some (TextEncoder_encode ?text)"
    using assms(1) c by (simp add: rsa_oaep_ok_def)
  let ?entry = "keyRecordEntry P cid (user_id u) now wrapped"
  have "writesKeyRecord P (GenerateChannelKey auth rng seed now cid) ?entry"
    using u pk p c d by (simp add: ToString_def wrapUnder_def unwrapWith_def wc base64ToArrayBuffer_encode)
  moreover have "storage s' = (storage s)\<lparr>objects := AList.update (fst ?entry) (snd ?entry) (objects (storage s))\<rparr>"
    using storeData_objects [OF st] s'
    by (simp add: keyRecordEntry_def keyFileName_Some encryptionPath_def keyReference_def)
  ultimately show ?thesis by blast
qed

lemma importSharedChannelKey_try_writes:
  assumes "importSharedChannelKey_try P auth now s wrapped cid = (r, s')"
  shows "storage s' = storage s \<or>
         (\<exists>entry. writesKeyRecord P (ImportSharedChannelKey auth now wrapped cid) entry \<and>
            storage s' = (storage s)\<lparr>objects := AList.update (fst entry) (snd entry) (objects (storage s))\<rparr>)"
proof (cases "storage s' = storage s")
  case True
  then show ?thesis by simp
next
  case False
  with assms obtain u n plain st where
    u: "user auth = Some u" and k: "getPrivateKey auth = Some (JwkRsaPrivate n)"
    and d: "decryptWithPrivateKey P wrapped (RsaPrivateKey n) = Inr plain"
    and st: "storeData (storage s) (keyFileName (Some u))
               (JSON_stringify P (KeyReferenceJson (keyReference cid (user_id u) wrapped now)))
               (encryptionPath cid) = Inr st"
    and s': "storage s' = st"
    by (auto simp: importSharedChannelKey_try_def importKey_def
        split: option.splits sum.splits json.splits if_splits)
  let ?entry = "keyRecordEntry P cid (user_id u) now wrapped"
  have "unwrapWith P n wrapped \<noteq> None"
    using d by (auto simp: decryptWithPrivateKey_def unwrapWith_def split: sum.splits option.splits)
  then have "writesKeyRecord P (ImportSharedChannelKey auth now wrapped cid) ?entry"
    using u k by simp
  moreover have "storage s' = (storage s)\<lparr>objects := AList.update (fst ?entry) (snd ?entry) (objects (storage s))\<rparr>"
    using storeData_objects [OF st] s'
    by (simp add: keyRecordEntry_def keyFileName_Some encryptionPath_def keyReference_def)
  ultimately show ?thesis by blast
qed

lemma step_writes:
  assumes "rsa_oaep_ok P"
  shows "storage (step P s op) = storage s \<or>
         (\<exists>entry. writesKeyRecord P op entry \<and>
            storage (step P s op)
              = (storage s)\<lparr>objects := AList.update (fst entry) (snd entry) (objects (storage s))\<rparr>)"
proof (cases op)
  case (GenerateChannelKey auth rng seed now cid)
  show ?thesis
  proof (cases "generateChannelKey_try P auth rng seed now s cid")
    case (Inl e)
    then show ?thesis using GenerateChannelKey by (simp add: generateChannelKey_def)
  next
    case (Inr s')
    then show ?thesis
      using generateChannelKey_try_writes [OF assms Inr] GenerateChannelKey
      by (simp add: generateChannelKey_def)
  qed
next
  case (GetChannelKey auth cid)
  then show ?thesis by (simp add: getChannelKey_storage)
next
  case (ShareChannelKey auth seed cid recipientPublicKeyJwk)
  have "storage (snd (shareChannelKey P auth seed s cid recipientPublicKeyJwk)) = storage s"
    using getChannelKey_storage [of P auth s cid]
    by (auto simp: shareChannelKey_def split: option.splits prod.splits sum.splits)
  then show ?thesis using ShareChannelKey by simp
next
  case (ImportSharedChannelKey auth now wrapped cid)
  obtain r s' where t: "importSharedChannelKey_try P auth now s wrapped cid = (r, s')"
    by (cases "importSharedChannelKey_try P auth now s wrapped cid")
  then have s': "snd (importSharedChannelKey P auth now s wrapped cid) = s'"
    by (simp add: importSharedChannelKey_def split: sum.splits)
  show ?thesis
    using importSharedChannelKey_try_writes [OF t] ImportSharedChannelKey s' by simp
qed

lemma onlyKeyRecordsAdded_refl: "onlyKeyRecordsAdded P [] st st"
  by (simp add: onlyKeyRecordsAdded_def list_all_iff)

lemma onlyKeyRecordsAdded_step:
  assumes "rsa_oaep_ok P" and "onlyKeyRecordsAdded P earlier before (storage s)"
  shows "onlyKeyRecordsAdded P (earlier @ [op]) before (storage (step P s op))"
proof -
  have weaker: "list_all (\<lambda>entry. entry \<in> set (objects before) \<or>
                   list_ex (\<lambda>op. writesKeyRecord P op entry) (earlier @ [op])) (objects (storage s))"
    using assms(2) by (auto simp: onlyKeyRecordsAdded_def list_all_iff list_ex_iff)
  from step_writes [OF assms(1), of s op] show ?thesis
  proof
    assume "storage (step P s op) = storage s"
    then show ?thesis using weaker by (simp add: onlyKeyRecordsAdded_def)
  next
    assume "\<exists>entry. writesKeyRecord P op entry \<and>
            storage (step P s op)
              = (storage s)\<lparr>objects := AList.update (fst entry) (snd entry) (objects (storage s))\<rparr>"
    then obtain entry where w: "writesKeyRecord P op entry"
      and st: "storage (step P s op)
              = (storage s)\<lparr>objects := AList.update (fst entry) (snd entry) (objects (storage s))\<rparr>"
      by blast
    have "list_ex (\<lambda>op. writesKeyRecord P op (fst entry, snd entry)) (earlier @ [op])"
      using w by (simp add: list_ex_iff)
    then show ?thesis
      using list_all_update [OF weaker, of "fst entry" "snd entry"]
      by (simp add: onlyKeyRecordsAdded_def st)
  qed
qed

lemma foldl_onlyKeyRecordsAdded:
  assumes "rsa_oaep_ok P"
  shows "onlyKeyRecordsAdded P earlier before (storage s) \<Longrightarrow>
         onlyKeyRecordsAdded P (earlier @ ops) before (storage (foldl (step P) s ops))"
proof (induction ops arbitrary: s earlier)
  case Nil
  then show ?case by simp
next
  case (Cons op ops)
  show ?case
    using Cons.IH [OF onlyKeyRecordsAdded_step [OF assms Cons.prems, of op]] by simp
qed

text \<open>
  Claim C1. For every sequence of Channel Key Manager operations
  (\<^verbatim>\<open>generateChannelKey\<close>, \<^verbatim>\<open>getChannelKey\<close>, \<^verbatim>\<open>shareChannelKey\<close>,
  \<^verbatim>\<open>importSharedChannelKey\<close>), run under any identities from any state, every object of
  the blob store afterwards was there before or is the Key Record that one of the
  operations writes. Every field of that record but \<^verbatim>\<open>encryptedKey\<close> is made of the
  operation's channel, the caller's id and the clock. Its \<^verbatim>\<open>encryptedKey\<close> is, for
  \<^verbatim>\<open>generateChannelKey\<close>, the RSA-OAEP encryption of the generated key's text under the
  caller's public key, which the private half of that pair decrypts to the text, and for
  \<^verbatim>\<open>importSharedChannelKey\<close> the wrapped key that was given, which the caller's private
  key decrypts. The key itself goes to the cache of the process, the other component of the
  state.
\<close>

theorem key_manager_writes_wrapped_keys_only:
  assumes "rsa_oaep_ok P"
  shows "onlyKeyRecordsAdded P ops (storage s) (storage (run P s ops))"
  unfolding run_def
  using foldl_onlyKeyRecordsAdded [OF assms onlyKeyRecordsAdded_refl, of ops s] by simp

lemma example_import_text:
  "decryptWithPrivateKey example_platform (js ''AkFB'') (RsaPrivateKey 2) = Inr (js ''AA'')"
  by (simp add: decryptWithPrivateKey_def base64ToArrayBuffer_def atob_def js_Cons js_Nil
      ascii_whitespace_def remove_padding_def b64_index_def example_platform_def
      example_rsa_decrypt_def TextDecoder_decode_def utf8_eval Let_def)

lemma example_run_keys:
  "map fst (objects (storage (run example_platform example_state example_operations)))
     = [(js ''encryption/channel-1'', js ''key-u1.json''), (js ''encryption/channel-1'', js ''key-u2.json'')]"
proof -
  obtain data where s: "example_state_created =
     \<lparr>channelKeysCache = [example_channel \<mapsto> generateSymmetricKey example_rng'],
      storage = \<lparr>isInitialized = True,
                 objects = [((encryptionPath example_channel, js ''key-'' @ js ''u1'' @ js ''.json''),
                             data)]\<rparr>\<rparr>"
    using example_state_created_eq by blast
  have g: "snd (generateChannelKey example_platform example_authA example_rng' example_rng 0
            example_state example_channel) = example_state_created"
    by (simp add: example_state_created_def)
  have c: "channelKeysCache example_state_created example_channel
             = Some (generateSymmetricKey example_rng')"
    by (simp add: s)
  have sh: "snd (shareChannelKey example_platform example_authA example_rng example_state_created
              example_channel (JwkRsaPublic 2)) = example_state_created"
    using getChannelKey_cached [OF c]
    by (simp add: shareChannelKey_def example_authA_def importKey_def)
  have k: "js ''key-u2.json'' \<noteq> js ''key-u1.json''"
    by (simp add: js_Cons js_Nil)
  have p: "JSON_parse example_platform (js ''AA'') = None"
    by (simp add: example_platform_def example_parse_def js_Cons js_Nil)
  have i: "map fst (objects (storage (snd (importSharedChannelKey example_platform example_authB 1
             example_state_created (js ''AkFB'') example_channel))))
     = [(js ''encryption/channel-1'', js ''key-u1.json''), (js ''encryption/channel-1'', js ''key-u2.json'')]"
    using k
    by (simp add: importSharedChannelKey_def importSharedChannelKey_try_def example_authB_def
        importKey_def example_import_text storeData_def keyFileName_Some example_userB_def p)
      (simp add: s encryptionPath_def example_channel_def js_Cons js_Nil)
  show ?thesis
    by (simp add: run_def example_operations_def g sh getChannelKey_storage i)
qed

theorem key_manager_writes_wrapped_keys_only_witness:
  "objects (storage example_state) = [] \<and>
   map fst (objects (storage (run example_platform example_state example_operations)))
     = [(js ''encryption/channel-1'', js ''key-u1.json''),
        (js ''encryption/channel-1'', js ''key-u2.json'')] \<and>
   onlyKeyRecordsAdded example_platform example_operations (storage example_state)
     (storage (run example_platform example_state example_operations))"
  using key_manager_writes_wrapped_keys_only [OF example_rsa_ok, of example_operations example_state]
    example_run_keys
  by (simp add: example_state_def)

section \<open>The share flow\<close>

lemma sendAndRead_cached:
  assumes "aes_gcm_ok P"
    and "channelKeysCache sS cid = Some (AesGcmKey k)"
    and "channelKeysCache sR cid = Some (AesGcmKey k)"
  shows "sendAndRead P sender sS rng message reader sR cid
           = Inr (TextDecoder_decode (TextEncoder_encode message))"
proof -
  have "symmetricRoundTrip P rng message (AesGcmKey k)
          = Inr (TextDecoder_decode (TextEncoder_encode message))"
    by (rule symmetricRoundTrip_eq [OF assms(1)])
  then show ?thesis
    using getChannelKey_cached [OF assms(2)] getChannelKey_cached [OF assms(3)]
    by (simp add: sendAndRead_def encryptMessage_def decryptMessage_def symmetricRoundTrip_def
        encryptWithSymmetricKey_eq)
qed

lemma shareFlow_eq:
  assumes "rsa_oaep_ok P" and "jwk_text_ok P"
    and "user authA = Some uA" and "getPrivateKey authA = Some privateKeyJwkA"
    and "publicKey uA = Some pkA" and "pkA \<noteq> []" and "JSON_parse P pkA = Some (JwkRsaPublic a)"
    and "isInitialized (storage sA)"
    and "user authB = Some uB" and "getPrivateKey authB = Some (JwkRsaPrivate b)"
  shows "\<exists>sA' sB'.
           shareFlow P authA authB (JwkRsaPublic b) rng seed seed' now now' sA cacheB cid
             = Some (sA', sB') \<and>
           channelKeysCache sA' cid = Some (generateSymmetricKey rng) \<and>
           channelKeysCache sB' cid = Some (generateSymmetricKey rng)"
proof -
  let ?K = "generateSymmetricKey rng"
  let ?s = "JSON_stringify P (exportKey ?K)"
  obtain c where g: "generateChannelKey_try P authA rng seed now sA cid =
               Inr (sA\<lparr>channelKeysCache := (channelKeysCache sA)(cid \<mapsto> ?K),
                      storage := (storage sA)\<lparr>objects :=
                        AList.update (encryptionPath cid, js ''key-'' @ user_id uA @ js ''.json'')
                          (JSON_stringify P (KeyReferenceJson
                             (keyReference cid (user_id uA) (base64_encode c) now)))
                          (objects (storage sA))\<rparr>\<rparr>)"
    using generateChannelKey_try_eq [OF assms(1-8)] by blast
  define sA1 where "sA1 = sA\<lparr>channelKeysCache := (channelKeysCache sA)(cid \<mapsto> ?K),
                      storage := (storage sA)\<lparr>objects :=
                        AList.update (encryptionPath cid, js ''key-'' @ user_id uA @ js ''.json'')
                          (JSON_stringify P (KeyReferenceJson
                             (keyReference cid (user_id uA) (base64_encode c) now)))
                          (objects (storage sA))\<rparr>\<rparr>"
  have gen: "generateChannelKey P authA rng seed now sA cid = (True, sA1)"
    by (simp add: generateChannelKey_def g sA1_def)
  have cacheA: "channelKeysCache sA1 cid = Some ?K" and initA: "isInitialized (storage sA1)"
    using assms(8) by (simp_all add: sA1_def)
  obtain w where w: "encryptWithPublicKey P seed' ?s (RsaPublicKey b) = Inr (base64_encode w)"
    and d: "decryptWithPrivateKey P (base64_encode w) (RsaPrivateKey b)
              = Inr (TextDecoder_decode (TextEncoder_encode ?s))"
    using wrapRoundTrip_eq [OF assms(1) exported_key_text(2) [OF assms(2)]] by blast
  have share: "shareChannelKey P authA seed' sA1 cid (JwkRsaPublic b) = (Inr (base64_encode w), sA1)"
    using assms(3) w getChannelKey_cached [OF cacheA]
    by (simp add: shareChannelKey_def importKey_def)
  have plain: "TextDecoder_decode (TextEncoder_encode ?s) = ?s"
    using exported_key_text(3) [OF assms(2)] by (simp add: utf8_preserved_def)
  have parse: "JSON_parse P ?s = Some (JwkOct (getRandomValues rng 32))"
    by (rule exported_key_text(4) [OF assms(2)])
  have imp: "importSymmetricKey (JwkOct (getRandomValues rng 32)) = Inr ?K"
    by (simp add: importSymmetricKey_def length_getRandomValues generateSymmetricKey_def)
  define sB where "sB = \<lparr>channelKeysCache = cacheB(cid \<mapsto> ?K),
      storage = (storage sA1)\<lparr>objects :=
        AList.update (encryptionPath cid, js ''key-'' @ user_id uB @ js ''.json'')
          (JSON_stringify P (KeyReferenceJson
             (keyReference cid (user_id uB) (base64_encode w) now')))
          (objects (storage sA1))\<rparr>\<rparr>"
  have "importSharedChannelKey_try P authB now'
          \<lparr>channelKeysCache = cacheB, storage = storage sA1\<rparr> (base64_encode w) cid = (Inr (), sB)"
    using assms(9,10) d initA
    by (simp add: importSharedChannelKey_try_def importKey_def plain parse imp storeData_def
        keyFileName_Some sB_def)
  then have "importSharedChannelKey P authB now'
          \<lparr>channelKeysCache = cacheB, storage = storage sA1\<rparr> (base64_encode w) cid = (True, sB)"
    by (simp add: importSharedChannelKey_def)
  then have "shareFlow P authA authB (JwkRsaPublic b) rng seed seed' now now' sA cacheB cid
               = Some (sA1\<lparr>storage := storage sB\<rparr>, sB)"
    by (simp add: shareFlow_def gen share)
  moreover have "channelKeysCache (sA1\<lparr>storage := storage sB\<rparr>) cid = Some ?K"
    using cacheA by simp
  moreover have "channelKeysCache sB cid = Some ?K"
    by (simp add: sB_def)
  ultimately show ?thesis by blast
qed

lemma afterShareFlow_eq:
  assumes "rsa_oaep_ok P" and "aes_gcm_ok P" and "jwk_text_ok P"
    and "user authA = Some uA" and "getPrivateKey authA = Some privateKeyJwkA"
    and "publicKey uA = Some pkA" and "pkA \<noteq> []" and "JSON_parse P pkA = Some (JwkRsaPublic a)"
    and "isInitialized (storage sA)"
    and "user authB = Some uB" and "getPrivateKey authB = Some (JwkRsaPrivate b)"
  shows "afterShareFlow P authA authB (JwkRsaPublic b) rng seed seed' now now' sA cacheB cid
           rngM message
         = Some (Some (generateSymmetricKey rng), Some (generateSymmetricKey rng),
                 [Inr (TextDecoder_decode (TextEncoder_encode message)),
                  Inr (TextDecoder_decode (TextEncoder_encode message)),
                  Inr (TextDecoder_decode (TextEncoder_encode message)),
                  Inr (TextDecoder_decode (TextEncoder_encode message))])"
proof -
  obtain sA' sB' where f: "shareFlow P authA authB (JwkRsaPublic b) rng seed seed' now now' sA cacheB cid
             = Some (sA', sB')"
    and a: "channelKeysCache sA' cid = Some (generateSymmetricKey rng)"
    and b: "channelKeysCache sB' cid = Some (generateSymmetricKey rng)"
    using shareFlow_eq [OF assms(1) assms(3-11)] by blast
  have a': "channelKeysCache sA' cid = Some (AesGcmKey (getRandomValues rng 32))"
    and b': "channelKeysCache sB' cid = Some (AesGcmKey (getRandomValues rng 32))"
    using a b by (simp_all add: generateSymmetricKey_def)
  show ?thesis
    using getChannelKey_cached [OF a] getChannelKey_cached [OF b]
    by (simp add: afterShareFlow_def f sendAndRead_cached [OF assms(2) a' a']
        sendAndRead_cached [OF assms(2) a' b'] sendAndRead_cached [OF assms(2) b' a']
        sendAndRead_cached [OF assms(2) b' b'])
qed

text \<open>
  Claim C5, as amended. For two users A and B with generated key pairs: when A runs
  \<^verbatim>\<open>generateChannelKey(C)\<close> and \<^verbatim>\<open>shareChannelKey(C, B.publicKey)\<close> and B runs
  \<^verbatim>\<open>importSharedChannelKey\<close> with the returned blob, every step succeeds; afterwards
  \<^verbatim>\<open>getChannelKey(C)\<close> returns the generated key for both, and a well-formed message
  that does not start with a byte order mark, encrypted for the channel by either user, is
  decrypted back to the original plaintext by either user.
\<close>

theorem share_flow:
  assumes "rsa_oaep_ok P" and "aes_gcm_ok P" and "jwk_text_ok P"
    and "user authA = Some uA" and "getPrivateKey authA = Some (JwkRsaPrivate a)"
    and "publicKey uA = Some pkA" and "pkA \<noteq> []" and "JSON_parse P pkA = Some (JwkRsaPublic a)"
    and "isInitialized (storage sA)"
    and "user authB = Some uB" and "getPrivateKey authB = Some (JwkRsaPrivate b)"
    and "well_formed message" and "\<not> starts_with_bom message"
  shows "afterShareFlow P authA authB (JwkRsaPublic b) rng seed seed' now now' sA cacheB cid
           rngM message
         = Some (Some (generateSymmetricKey rng), Some (generateSymmetricKey rng),
                 [Inr message, Inr message, Inr message, Inr message])"
  using afterShareFlow_eq [OF assms(1-11)] well_formed_utf8_preserved [OF assms(12,13)]
  by (simp add: utf8_preserved_def)

lemma example_identities:
  "user example_authA = Some example_userA"
  "getPrivateKey example_authA = Some (JwkRsaPrivate 1)"
  "isInitialized (storage example_state)"
  "user example_authB = Some example_userB"
  "getPrivateKey example_authB = Some (JwkRsaPrivate 2)"
  by (simp_all add: example_authA_def example_authB_def example_state_def)

theorem share_flow_witness:
  "afterShareFlow example_platform example_authA example_authB (JwkRsaPublic 2) example_rng'
     example_rng example_rng 0 1 example_state Map.empty example_channel example_rng (js ''hello'')
   = Some (Some (generateSymmetricKey example_rng'), Some (generateSymmetricKey example_rng'),
           [Inr (js ''hello''), Inr (js ''hello''), Inr (js ''hello''), Inr (js ''hello'')])"
  by (rule share_flow [OF example_rsa_ok example_aes_ok example_jwk_text_ok example_identities(1,2)
        example_public_key_parses example_identities(3,4,5) hello_well_formed])

text \<open>
  After the same flow, the message of one unpaired surrogate comes back as U+FFFD to both
  users, whoever encrypted it.
\<close>

theorem share_flow_counterexample:
  "afterShareFlow example_platform example_authA example_authB (JwkRsaPublic 2) example_rng'
     example_rng example_rng 0 1 example_state Map.empty example_channel example_rng [0xD800]
   = Some (Some (generateSymmetricKey example_rng'), Some (generateSymmetricKey example_rng'),
           [Inr [0xFFFD], Inr [0xFFFD], Inr [0xFFFD], Inr [0xFFFD]]) \<and>
   afterShareFlow example_platform example_authA example_authB (JwkRsaPublic 2) example_rng'
     example_rng example_rng 0 1 example_state Map.empty example_channel example_rng [0xD800]
   \<noteq> Some (Some (generateSymmetricKey example_rng'), Some (generateSymmetricKey example_rng'),
           [Inr [0xD800], Inr [0xD800], Inr [0xD800], Inr [0xD800]])"
proof -
  have "TextDecoder_decode (TextEncoder_encode [0xD800]) = [0xFFFD]"
    by (simp add: utf8_eval)
  then show ?thesis
    using afterShareFlow_eq [OF example_rsa_ok example_aes_ok example_jwk_text_ok
        example_identities(1,2) example_public_key_parses example_identities(3,4,5),
        of example_rng' example_rng example_rng 0 1 Map.empty example_channel example_rng "[0xD800]"]
    by simp
qed

section \<open>Loading messages\<close>

lemma decryptLoaded_eq:
  "decryptLoaded P auth cid s message
     = (shownMessage P (fst (getChannelKey P auth s cid)) message,
        if truthy (iv message) then snd (getChannelKey P auth s cid) else s)"
  by (simp add: decryptLoaded_def shownMessage_def decryptMessage_def
      split: prod.splits option.splits sum.splits)

lemma decryptAll_eq:
  "fst (decryptAll P auth cid s xs) = map (shownMessage P (fst (getChannelKey P auth s cid))) xs"
proof (induction xs arbitrary: s)
  case Nil
  show ?case by simp
next
  case (Cons m xs)
  show ?case
  proof (cases "truthy (iv m)")
    case True
    have "fst (decryptAll P auth cid (snd (getChannelKey P auth s cid)) xs)
            = map (shownMessage P (fst (getChannelKey P auth s cid))) xs"
      using Cons.IH [of "snd (getChannelKey P auth s cid)"] by (simp add: getChannelKey_again)
    then show ?thesis
      using True by (auto simp: decryptLoaded_eq split: prod.splits)
  next
    case False
    then show ?thesis
      using Cons.IH [of s] by (auto simp: decryptLoaded_eq split: prod.splits)
  qed
qed

text \<open>
  Claim C9. A stored message record with no \<^verbatim>\<open>iv\<close> field (or an empty one) is treated
  as never-encrypted plaintext: the decrypting step that \<^verbatim>\<open>fetchMessages\<close> applies to
  each record returns it with its content unchanged, whatever the key. When
  \<^verbatim>\<open>fetchMessages\<close> has retrieved and parsed the stored messages of a channel, it returns
  them sorted by time, each as the message list shows it: a message whose decryption
  fails, for lack of a key or under the key, has the fixed placeholder as its content, and
  the rest of the batch still loads.
\<close>

theorem fetchMessages_shows_each_message:
  assumes "listData (storage s) (messagesPath cid) = Inr keys"
    and "retrieveMessages P (storage s) (messagesPath cid) keys = Inr loaded"
  shows "fst (fetchMessages P auth s ms cid)
           = map (shownMessage P (fst (getChannelKey P auth s cid))) (sort_key timestamp loaded) \<and>
         (\<forall>m key. \<not> truthy (iv m) \<longrightarrow> shownMessage P key m = m) \<and>
         (\<forall>m. truthy (iv m) \<longrightarrow>
            shownMessage P None m = m\<lparr>content := js ''[ENCRYPTED - Cannot decrypt]''\<rparr>) \<and>
         (\<forall>m k e. truthy (iv m) \<and>
            decryptWithSymmetricKey P (content m) (ToString (iv m)) k = Inl e \<longrightarrow>
            shownMessage P (Some k) m = m\<lparr>content := js ''[ENCRYPTED - Cannot decrypt]''\<rparr>)"
proof -
  have "fst (fetchMessages P auth s ms cid)
          = fst (decryptAll P auth cid s (sort_key timestamp loaded))"
    using assms by (simp add: fetchMessages_def split: prod.splits)
  then show ?thesis
    by (simp add: decryptAll_eq shownMessage_def)
qed

lemma example_parse_message:
  "JSON_parse example_platform (example_stringify (MessageJson (example_message c None)))
     = Some (MessageJson (example_message c None))"
  "JSON_parse example_platform
     (example_stringify (MessageJson (example_message c (Some (js ''AAAAAAAAAAAAAAAA'')))))
     = Some (MessageJson (example_message c (Some (js ''AAAAAAAAAAAAAAAA''))))"
  by (simp_all add: example_platform_def example_stringify_def example_parse_def
      example_message_def js_Cons js_Nil)

lemma example_listData:
  "listData (storage example_state_messages) (messagesPath example_channel)
     = Inr [js ''m1.json'', js ''m2.json'']"
  by (simp add: listData_def example_state_messages_def)

lemma example_retrieveMessages:
  "retrieveMessages example_platform (storage example_state_messages)
     (messagesPath example_channel) [js ''m1.json'', js ''m2.json'']
     = Inr [example_message (js ''hello'') None,
            example_message (js ''AAAA'') (Some (js ''AAAAAAAAAAAAAAAA''))]"
proof -
  have "js ''m2.json'' \<noteq> js ''m1.json''"
    by (simp add: js_Cons js_Nil)
  then show ?thesis
    by (simp add: retrieveData_def example_state_messages_def example_parse_message)
qed

lemma example_messages_no_key:
  "fst (getChannelKey example_platform example_authA example_state_messages example_channel) = None"
proof -
  have "encryptionPath example_channel \<noteq> messagesPath example_channel"
    by (simp add: encryptionPath_def messagesPath_def js_Cons js_Nil)
  then have "unwrapChannelKey example_platform example_authA (storage example_state_messages)
          example_channel = Inl (StorageError ''Failed to retrieve file'')"
    by (simp add: unwrapChannelKey_def example_authA_def importKey_def retrieveData_def
        example_state_messages_def)
  moreover have "channelKeysCache example_state_messages example_channel = None"
    by (simp add: example_state_messages_def)
  ultimately show ?thesis
    using getChannelKey_failed by (metis fst_conv)
qed

theorem fetchMessages_shows_each_message_witness:
  "fst (fetchMessages example_platform example_authA example_state_messages example_message_state
          example_channel)
     = [example_message (js ''hello'') None,
        example_message (js ''[ENCRYPTED - Cannot decrypt]'') (Some (js ''AAAAAAAAAAAAAAAA''))]"
proof -
  have "sort_key timestamp [example_message (js ''hello'') None,
            example_message (js ''AAAA'') (Some (js ''AAAAAAAAAAAAAAAA''))]
          = [example_message (js ''hello'') None,
             example_message (js ''AAAA'') (Some (js ''AAAAAAAAAAAAAAAA''))]"
    by (simp add: example_message_def)
  moreover have "shownMessage example_platform None (example_message (js ''hello'') None)
          = example_message (js ''hello'') None"
    by (simp add: shownMessage_def example_message_def truthy_def)
  moreover have "shownMessage example_platform None
            (example_message (js ''AAAA'') (Some (js ''AAAAAAAAAAAAAAAA'')))
          = example_message (js ''[ENCRYPTED - Cannot decrypt]'') (Some (js ''AAAAAAAAAAAAAAAA''))"
    by (simp add: shownMessage_def example_message_def truthy_def js_Cons)
  ultimately show ?thesis
    using fetchMessages_shows_each_message [OF example_listData example_retrieveMessages,
        of example_authA example_message_state]
    by (simp add: example_messages_no_key)
qed

lemma example_created_cache:
  "channelKeysCache example_state_created example_channel = Some (generateSymmetricKey example_rng')"
proof -
  obtain data where s: "example_state_created =
     \<lparr>channelKeysCache = [example_channel \<mapsto> generateSymmetricKey example_rng'],
      storage = \<lparr>isInitialized = True,
                 objects = [((encryptionPath example_channel, js ''key-'' @ js ''u1'' @ js ''.json''),
                             data)]\<rparr>\<rparr>"
    using example_state_created_eq by blast
  show ?thesis by (simp add: s)
qed

section \<open>Reactions on encrypted messages\<close>

lemma getChannelKey_caches:
  assumes "getChannelKey P auth s cid = (Some key, s')"
  shows "channelKeysCache s' cid = Some key" and "storage s' = storage s"
  using assms
  by (auto simp: getChannelKey_def split: option.splits sum.splits)

lemma storeEncryptedVersion_encrypted:
  assumes "getChannelKey P auth s cid = (Some (AesGcmKey k), s')"
    and "isInitialized (storage s)"
    and "iv message = Some iv0" and "iv0 \<noteq> []"
    and "iv updatedMessage = iv message"
  shows "storeEncryptedVersion P auth rng s ms cid messageId messageIndex message updatedMessage
         = (True,
            s'\<lparr>storage := (storage s)\<lparr>objects :=
                 AList.update (messagesPath cid, messageId @ js ''.json'')
                   (JSON_stringify P (MessageJson (updatedMessage\<lparr>content :=
                      base64_encode (aes_gcm_encrypt P k (getRandomValues rng 12)
                        (TextEncoder_encode (content message)))\<rparr>)))
                   (objects (storage s))\<rparr>\<rparr>,
            ms\<lparr>messages := (messages ms)[messageIndex := updatedMessage]\<rparr>)"
  using assms(1-4) getChannelKey_caches(2) [OF assms(1)]
  by (simp add: storeEncryptedVersion_def truthy_Some encryptMessage_def
      encryptWithSymmetricKey_eq storeData_def)

lemma decrypt_under_other_nonce:
  assumes "aes_gcm_binds_nonce P"
    and "channelKeysCache s cid = Some (AesGcmKey k)"
    and "base64ToArrayBuffer iv0 = Inr nonce0" and "length nonce0 = 12"
    and "nonce0 \<noteq> getRandomValues rng 12"
  shows "fst (decryptMessage P auth s
           (base64_encode (aes_gcm_encrypt P k (getRandomValues rng 12) d)) iv0 cid)
         = Inl OperationError"
proof -
  have "aes_gcm_decrypt P k nonce0 (aes_gcm_encrypt P k (getRandomValues rng 12) d) = None"
    using assms(1,4,5) by (simp add: aes_gcm_binds_nonce_def length_getRandomValues)
  then show ?thesis
    using getChannelKey_cached [OF assms(2)] assms(3)
    by (simp add: decryptMessage_def decryptWithSymmetricKey_def base64ToArrayBuffer_encode)
qed

lemma stored_after_reaction:
  assumes "aes_gcm_binds_nonce P"
    and "getChannelKey P auth s cid = (Some (AesGcmKey k), s1)"
    and "isInitialized (storage s)"
    and "iv message = Some iv0" and "iv0 \<noteq> []"
    and "iv updatedMessage = iv message"
    and "base64ToArrayBuffer iv0 = Inr nonce0" and "length nonce0 = 12"
    and "nonce0 \<noteq> getRandomValues rng 12"
  shows "\<exists>c i64 stored s' ms'.
           encryptWithSymmetricKey P rng (content message) (AesGcmKey k) = Inr (c, i64) \<and>
           base64ToArrayBuffer i64 = Inr (getRandomValues rng 12) \<and>
           storeEncryptedVersion P auth rng s ms cid messageId messageIndex message updatedMessage
             = (True, s', ms') \<and>
           retrieveData (storage s') (messageId @ js ''.json'') (messagesPath cid)
             = Inr (JSON_stringify P (MessageJson stored)) \<and>
           content stored = c \<and> iv stored = Some iv0 \<and>
           fst (decryptMessage P auth s' (content stored) (ToString (iv stored)) cid)
             = Inl OperationError"
proof -
  let ?c = "base64_encode (aes_gcm_encrypt P k (getRandomValues rng 12)
              (TextEncoder_encode (content message)))"
  let ?stored = "updatedMessage\<lparr>content := ?c\<rparr>"
  let ?s' = "s1\<lparr>storage := (storage s)\<lparr>objects :=
                 AList.update (messagesPath cid, messageId @ js ''.json'')
                   (JSON_stringify P (MessageJson ?stored)) (objects (storage s))\<rparr>\<rparr>"
  have e: "encryptWithSymmetricKey P rng (content message) (AesGcmKey k)
             = Inr (?c, base64_encode (getRandomValues rng 12))"
    by (rule encryptWithSymmetricKey_eq)
  have st: "storeEncryptedVersion P auth rng s ms cid messageId messageIndex message updatedMessage
         = (True, ?s', ms\<lparr>messages := (messages ms)[messageIndex := updatedMessage]\<rparr>)"
    by (rule storeEncryptedVersion_encrypted [OF assms(2-6)])
  have r: "retrieveData (storage ?s') (messageId @ js ''.json'') (messagesPath cid)
             = Inr (JSON_stringify P (MessageJson ?stored))"
    using assms(3) by (simp add: retrieveData_def update_conv')
  have "channelKeysCache ?s' cid = Some (AesGcmKey k)"
    using getChannelKey_caches(1) [OF assms(2)] by simp
  then have d: "fst (decryptMessage P auth ?s' ?c iv0 cid) = Inl OperationError"
    by (rule decrypt_under_other_nonce [OF assms(1) _ assms(7-9)])
  have "content ?stored = ?c" "iv ?stored = Some iv0"
    using assms(4,6) by simp_all
  then show ?thesis
    using e st r d base64ToArrayBuffer_encode [of "getRandomValues rng 12"]
    by (metis ToString_Some)
qed

text \<open>
  Claim C10. For a message on display that has an \<^verbatim>\<open>iv\<close> (an encrypted message), when
  \<^verbatim>\<open>addReaction\<close> (for a reaction that the user has not given yet) or
  \<^verbatim>\<open>removeReaction\<close> stores the updated record, with the user signed in, the channel
  selected, its key resolved and the store available: the stored record's \<^verbatim>\<open>content\<close> is
  the ciphertext of a new encryption, under a nonce drawn for it, and its \<^verbatim>\<open>iv\<close> is still
  the \<^verbatim>\<open>iv\<close> of the message. When that holds the nonce of the original encryption and the
  new draw is another one, decrypting the stored content with the stored \<^verbatim>\<open>iv\<close> fails.
\<close>

theorem reaction_stores_new_ciphertext_under_old_iv:
  assumes "aes_gcm_binds_nonce P"
    and "user auth = Some u" and "currentChannelId ms = Some cid" and "cid \<noteq> []"
    and "findIndex (\<lambda>m. message_id m = messageId) (messages ms) = Some i"
    and "iv (messages ms ! i) = Some iv0" and "iv0 \<noteq> []"
    and "fst (getChannelKey P auth s cid) = Some (AesGcmKey k)"
    and "isInitialized (storage s)"
    and "base64ToArrayBuffer iv0 = Inr nonce0" and "length nonce0 = 12"
    and "nonce0 \<noteq> getRandomValues rng 12"
  shows "((case reactions (messages ms ! i) of
             None \<Rightarrow> True
           | Some rs \<Rightarrow> \<not> list_ex (\<lambda>r. userId r = user_id u \<and> emoji r = emojiArg) rs) \<longrightarrow>
          (\<exists>c i64 stored s' ms'.
             encryptWithSymmetricKey P rng (content (messages ms ! i)) (AesGcmKey k) = Inr (c, i64) \<and>
             base64ToArrayBuffer i64 = Inr (getRandomValues rng 12) \<and>
             addReaction P auth rng s ms messageId emojiArg = (True, s', ms') \<and>
             retrieveData (storage s') (messageId @ js ''.json'') (messagesPath cid)
               = Inr (JSON_stringify P (MessageJson stored)) \<and>
             content stored = c \<and> iv stored = Some iv0 \<and>
             fst (decryptMessage P auth s' (content stored) (ToString (iv stored)) cid)
               = Inl OperationError)) \<and>
         (\<exists>c i64 stored s' ms'.
             encryptWithSymmetricKey P rng (content (messages ms ! i)) (AesGcmKey k) = Inr (c, i64) \<and>
             base64ToArrayBuffer i64 = Inr (getRandomValues rng 12) \<and>
             removeReaction P auth rng s ms messageId emojiArg = (True, s', ms') \<and>
             retrieveData (storage s') (messageId @ js ''.json'') (messagesPath cid)
               = Inr (JSON_stringify P (MessageJson stored)) \<and>
             content stored = c \<and> iv stored = Some iv0 \<and>
             fst (decryptMessage P auth s' (content stored) (ToString (iv stored)) cid)
               = Inl OperationError)"
proof -
  let ?m = "messages ms ! i"
  obtain s1 where g: "getChannelKey P auth s cid = (Some (AesGcmKey k), s1)"
    using assms(8) by (cases "getChannelKey P auth s cid") simp
  have tr: "truthy (currentChannelId ms)" and ts: "ToString (currentChannelId ms) = cid"
    using assms(3,4) by (simp_all add: truthy_def ToString_def)
  have stored: "\<exists>c i64 stored s' ms'.
           encryptWithSymmetricKey P rng (content ?m) (AesGcmKey k) = Inr (c, i64) \<and>
           base64ToArrayBuffer i64 = Inr (getRandomValues rng 12) \<and>
           storeEncryptedVersion P auth rng s ms cid messageId i ?m (?m\<lparr>reactions := rs\<rparr>)
             = (True, s', ms') \<and>
           retrieveData (storage s') (messageId @ js ''.json'') (messagesPath cid)
             = Inr (JSON_stringify P (MessageJson stored)) \<and>
           content stored = c \<and> iv stored = Some iv0 \<and>
           fst (decryptMessage P auth s' (content stored) (ToString (iv stored)) cid)
             = Inl OperationError" for rs
    by (rule stored_after_reaction [OF assms(1) g assms(9) assms(6,7) _ assms(10-12)]) simp
  have add: "addReaction P auth rng s ms messageId emojiArg
      = storeEncryptedVersion P auth rng s ms cid messageId i ?m
          (?m\<lparr>reactions := Some ((case reactions ?m of None \<Rightarrow> [] | Some rs \<Rightarrow> rs)
             @ [\<lparr>emoji = emojiArg, userId = user_id u, userName = name u\<rparr>])\<rparr>)"
    if "case reactions ?m of None \<Rightarrow> True
        | Some rs \<Rightarrow> \<not> list_ex (\<lambda>r. userId r = user_id u \<and> emoji r = emojiArg) rs"
    using that assms(2,5) tr ts
    by (simp add: addReaction_def Let_def split: option.splits)
  have remove: "removeReaction P auth rng s ms messageId emojiArg
      = storeEncryptedVersion P auth rng s ms cid messageId i ?m
          (?m\<lparr>reactions := Some (filter (\<lambda>r. \<not> (userId r = user_id u \<and> emoji r = emojiArg))
             (case reactions ?m of None \<Rightarrow> [] | Some rs \<Rightarrow> rs))\<rparr>)"
    using assms(2,5) tr ts
    by (simp add: removeReaction_def Let_def)
  show ?thesis
    using add remove stored by simp
qed

lemma example_iv_zero:
  "base64ToArrayBuffer (js ''AAAAAAAAAAAAAAAA'') = Inr [0, 0, 0, 0, 0, 0, 0, 0, 0, 0, 0, 0]"
  by code_simp

lemma example_draw_not_zero:
  "[0, 0, 0, 0, 0, 0, 0, 0, 0, 0, 0, 0] \<noteq> getRandomValues example_rng' 12"
proof
  assume "[0, 0, 0, 0, 0, 0, 0, 0, 0, 0, 0, 0] = getRandomValues example_rng' 12"
  then have "[0, 0, 0, 0, 0, 0, 0, 0, 0, 0, 0, 0 :: byte] ! 0 = getRandomValues example_rng' 12 ! 0"
    by simp
  then show False
    by (simp add: getRandomValues_def example_rng'_def)
qed

lemma example_created_key:
  "fst (getChannelKey example_platform example_authA example_state_created example_channel)
     = Some (AesGcmKey (getRandomValues example_rng' 32))"
  using getChannelKey_cached [OF example_created_cache]
  by (simp add: generateSymmetricKey_def)

lemma example_created_initialized: "isInitialized (storage example_state_created)"
proof -
  obtain data where s: "example_state_created =
     \<lparr>channelKeysCache = [example_channel \<mapsto> generateSymmetricKey example_rng'],
      storage = \<lparr>isInitialized = True,
                 objects = [((encryptionPath example_channel, js ''key-'' @ js ''u1'' @ js ''.json''),
                             data)]\<rparr>\<rparr>"
    using example_state_created_eq by blast
  show ?thesis by (simp add: s)
qed

lemma example_shown:
  "currentChannelId example_message_shown = Some example_channel"
  "example_channel \<noteq> []"
  "findIndex (\<lambda>m. message_id m = js ''msg-1'') (messages example_message_shown) = Some 0"
  "iv (messages example_message_shown ! 0) = Some (js ''AAAAAAAAAAAAAAAA'')"
  "js ''AAAAAAAAAAAAAAAA'' \<noteq> []"
  "reactions (messages example_message_shown ! 0) = None"
  by (simp_all add: example_message_shown_def example_channel_def example_message_def js_Cons)

theorem reaction_stores_new_ciphertext_under_old_iv_witness:
  "(\<exists>c i64 stored s' ms'.
      encryptWithSymmetricKey example_platform example_rng'
        (content (messages example_message_shown ! 0))
        (AesGcmKey (getRandomValues example_rng' 32)) = Inr (c, i64) \<and>
      base64ToArrayBuffer i64 = Inr (getRandomValues example_rng' 12) \<and>
      addReaction example_platform example_authA example_rng' example_state_created
        example_message_shown (js ''msg-1'') (js ''+1'') = (True, s', ms') \<and>
      retrieveData (storage s') (js ''msg-1'' @ js ''.json'') (messagesPath example_channel)
        = Inr (JSON_stringify example_platform (MessageJson stored)) \<and>
      content stored = c \<and> iv stored = Some (js ''AAAAAAAAAAAAAAAA'') \<and>
      fst (decryptMessage example_platform example_authA s' (content stored)
             (ToString (iv stored)) example_channel) = Inl OperationError) \<and>
   (\<exists>c i64 stored s' ms'.
      encryptWithSymmetricKey example_platform example_rng'
        (content (messages example_message_shown ! 0))
        (AesGcmKey (getRandomValues example_rng' 32)) = Inr (c, i64) \<and>
      base64ToArrayBuffer i64 = Inr (getRandomValues example_rng' 12) \<and>
      removeReaction example_platform example_authA example_rng' example_state_created
        example_message_shown (js ''msg-1'') (js ''+1'') = (True, s', ms') \<and>
      retrieveData (storage s') (js ''msg-1'' @ js ''.json'') (messagesPath example_channel)
        = Inr (JSON_stringify example_platform (MessageJson stored)) \<and>
      content stored = c \<and> iv stored = Some (js ''AAAAAAAAAAAAAAAA'') \<and>
      fst (decryptMessage example_platform example_authA s' (content stored)
             (ToString (iv stored)) example_channel) = Inl OperationError)"
  using reaction_stores_new_ciphertext_under_old_iv [OF example_aes_binds_nonce
      example_identities(1) example_shown(1,2,3,4,5) example_created_key
      example_created_initialized example_iv_zero _ example_draw_not_zero,
      of "js ''+1''"]
  by (simp add: example_shown(6))


end
